theory Spec2Isabelle
  imports Complex_Main
begin

section \<open>The session store (\<open>Memcached\<close>)\<close>

text \<open>
  The store of the second \<open>Memcached\<close> variant of the source (the one with
  \<open>cleanExpiredItems\<close>, \<open>IsEmpty\<close> and the backoff poll loop in \<open>Shutdown\<close>).

  Modelling decisions:
  \<^item> \<open>interface{}\<close> values are \<open>'v option\<close>, the nil interface being \<open>None\<close>; so
    \<open>Get\<close>, which returns nil for a missing or expired entry, returns \<open>None\<close> there.
  \<^item> The clock is an explicit argument \<open>now\<close>: what \<open>time.Now().UnixNano()\<close> returns
    at the call, the nanoseconds since the Unix epoch as an \<open>int64\<close>. Timestamps and
    durations are \<open>int\<close>, and \<open>in_int64\<close> is the range of an \<open>int64\<close>. \<open>Get\<close> and
    the sweep only compare \<open>now\<close> with stored timestamps. \<open>Set\<close> computes
    \<open>time.Now().Add(mc.ttlTimeout).UnixNano()\<close>: a \<open>time.Time\<close> counts seconds in an
    \<open>int64\<close>, so \<open>Add\<close> is exact, but \<open>UnixNano\<close> is \<open>int64\<close> arithmetic and wraps
    around when \<open>now + ttl\<close> leaves the \<open>int64\<close> range (a TTL of some 292 years is a
    valid \<open>time.Duration\<close>). \<open>UnixNano t\<close> is that \<open>int64\<close> for the instant \<open>t\<close>.
  \<^item> The lock \<open>mu\<close> makes every operation atomic on the map, so each operation is a
    function from the store before the call to the store after it. \<open>Get\<close> and
    \<open>IsEmpty\<close> only take the read lock and write nothing: they return no new store.
  \<^item> The reaper goroutine is the environment calling \<open>cleanExpiredItems\<close> at its ticks;
    \<open>cleanupTimeout\<close>, the period of the ticks, is not part of the store's state.
\<close>

record 'v cached =
  cvalue :: "'v option"
  expireAt :: int

record 'v Memcached =
  items :: "string \<rightharpoonup> 'v cached"
  ttlTimeout :: int
  inShutdown :: bool

definition in_int64 :: "int \<Rightarrow> bool" where
  "in_int64 x \<longleftrightarrow> - (2 ^ 63) \<le> x \<and> x < 2 ^ 63"

definition UnixNano :: "int \<Rightarrow> int" where
  "UnixNano t = (t + 2 ^ 63) mod 2 ^ 64 - 2 ^ 63"

definition NewMemcached :: "int \<Rightarrow> int \<Rightarrow> 'v Memcached" where
  "NewMemcached ttl cleanup = \<lparr> items = Map.empty, ttlTimeout = ttl, inShutdown = False \<rparr>"

definition Set :: "int \<Rightarrow> string \<Rightarrow> 'v option \<Rightarrow> 'v Memcached \<Rightarrow> 'v Memcached" where
  "Set now key v mc =
     (let isExists = (items mc key \<noteq> None) in
      if inShutdown mc \<and> \<not> isExists then mc
      else let expireAt = UnixNano (now + ttlTimeout mc) in
           mc\<lparr> items := (items mc)(key \<mapsto> \<lparr> cvalue = v, expireAt = expireAt \<rparr>) \<rparr>)"

definition Get :: "int \<Rightarrow> string \<Rightarrow> 'v Memcached \<Rightarrow> 'v option" where
  "Get now key mc =
     (case items mc key of
        None \<Rightarrow> None
      | Some item \<Rightarrow> if now > expireAt item then None else cvalue item)"

definition cleanExpiredItems :: "int \<Rightarrow> 'v Memcached \<Rightarrow> 'v Memcached" where
  "cleanExpiredItems now mc =
     mc\<lparr> items := (\<lambda>k. case items mc k of
                          None \<Rightarrow> None
                        | Some v \<Rightarrow> if now > expireAt v then None else Some v) \<rparr>"

definition IsEmpty :: "'v Memcached \<Rightarrow> bool" where
  "IsEmpty mc = (dom (items mc) = {})"

subsection \<open>The backoff intervals of \<open>Shutdown\<close>\<close>

text \<open>
  \<open>time.Duration\<close> counts nanoseconds. \<open>rand.Intn n\<close> panics for \<open>n \<le> 0\<close> and
  otherwise returns some number in \<open>[0, n)\<close>: the generator's raw draw is an argument,
  reduced into the range, so that every number of the range is a possible result.
  \<open>nextInterval\<close> is the closure of \<open>Shutdown\<close>; its captured variable
  \<open>intervalBase\<close> is passed in and returned. \<open>None\<close> is the panic of \<open>rand.Intn\<close>.
\<close>

definition Millisecond :: int where
  "Millisecond = 1000000"

definition shutdownIntervalMax :: int where
  "shutdownIntervalMax = 500 * Millisecond"

definition Intn :: "int \<Rightarrow> nat \<Rightarrow> int option" where
  "Intn n raw = (if n \<le> 0 then None else Some (int raw mod n))"

definition nextInterval :: "nat \<Rightarrow> int \<Rightarrow> (int \<times> int) option" where
  "nextInterval raw intervalBase =
     (case Intn (intervalBase div 10) raw of
        None \<Rightarrow> None
      | Some jitter \<Rightarrow>
          let interval = intervalBase + jitter;
              doubled = intervalBase * 2;
              intervalBase' = (if doubled > shutdownIntervalMax then shutdownIntervalMax else doubled)
          in Some (interval, intervalBase'))"

text \<open>
  The intervals \<open>Shutdown\<close> computes, in order: one when the timer is created and one
  at each reset, each call of the closure seeing the base the previous call left.
\<close>

fun intervals :: "nat list \<Rightarrow> int \<Rightarrow> int list option" where
  "intervals [] intervalBase = Some []"
| "intervals (raw # raws) intervalBase =
     (case nextInterval raw intervalBase of
        None \<Rightarrow> None
      | Some (interval, intervalBase') \<Rightarrow>
          (case intervals raws intervalBase' of
             None \<Rightarrow> None
           | Some rest \<Rightarrow> Some (interval # rest)))"

definition shutdownIntervals :: "nat list \<Rightarrow> int list option" where
  "shutdownIntervals raws = intervals raws Millisecond"

section \<open>The arithmetic engine (\<open>Calculator\<close>)\<close>

subsection \<open>The interface of \<open>math/big\<close>\<close>

text \<open>
  The engine computes with \<open>*big.Float\<close> of Go's standard library, which is not part
  of the repository. The operations the engine calls are therefore a parameter of the
  model: a record \<open>M\<close> of functions over an arbitrary type \<open>'f\<close> of \<open>big.Float\<close>
  values, one field per method, with the receiver \<open>z\<close> as first argument where the
  method writes its receiver (its precision decides the rounding).
  \<^item> \<open>Float_SetString M z s\<close> is \<open>z.SetString(s)\<close>: \<open>None\<close> when \<open>ok\<close> is false.
  \<^item> \<open>Float_Add\<close>, \<open>Float_Sub\<close>, \<open>Float_Mul\<close>, \<open>Float_Quo\<close> are \<open>z.Add(x, y)\<close> and so
    on: \<open>None\<close> when the method panics with \<open>ErrNaN\<close>.
  \<^item> \<open>Float_Int M x\<close> is \<open>x.Int(nil)\<close> with \<open>*big.Int\<close> as \<open>int\<close>: \<open>None\<close> is
    the nil pointer returned for an infinite \<open>x\<close>.
  \<^item> \<open>Float_SetFloat64_0 M z\<close> is \<open>z.SetFloat64(0)\<close>, the only call the engine makes.
  \<^item> \<open>Float_Text M x\<close> is \<open>x.Text('f', -1)\<close>, the only format the engine asks for.
  \<^item> \<open>newFloat M\<close> is \<open>new(big.Float)\<close>, the zero value.
  The values held by the engine are never written after their creation, so pointers to
  them are modelled by the values, nil by \<open>None\<close>.
\<close>

record 'f math_big =
  newFloat :: 'f
  Float_SetString :: "'f \<Rightarrow> string \<Rightarrow> 'f option"
  Float_SetInt :: "'f \<Rightarrow> int \<Rightarrow> 'f"
  Float_SetFloat64_0 :: "'f \<Rightarrow> 'f"
  Float_Add :: "'f \<Rightarrow> 'f \<Rightarrow> 'f \<Rightarrow> 'f option"
  Float_Sub :: "'f \<Rightarrow> 'f \<Rightarrow> 'f \<Rightarrow> 'f option"
  Float_Mul :: "'f \<Rightarrow> 'f \<Rightarrow> 'f \<Rightarrow> 'f option"
  Float_Quo :: "'f \<Rightarrow> 'f \<Rightarrow> 'f \<Rightarrow> 'f option"
  Float_Sign :: "'f \<Rightarrow> int"
  Float_Int :: "'f \<Rightarrow> int option"
  Float_Text :: "'f \<Rightarrow> string"

subsection \<open>Runes and strings\<close>

text \<open>
  A \<open>rune\<close> is a code point, an \<open>int\<close>; \<open>rune c\<close> is the rune of an ASCII
  character literal. A Go string is its bytes. \<open>strings.ContainsRune s r\<close> is modelled
  for the calls the engine makes: either \<open>r\<close> is ASCII (then it is a search for one
  byte) or \<open>s\<close> is ASCII (then no rune outside ASCII, and no invalid rune, is found).
  \<open>string_of_rune r\<close> is the conversion \<open>string(r)\<close> for an ASCII rune, one byte; the
  engine converts only digits and \<open>'.'\<close>.
\<close>

type_synonym rune = int

definition rune :: "char \<Rightarrow> rune" where
  "rune c = of_char c"

definition string_of_rune :: "rune \<Rightarrow> string" where
  "string_of_rune r = [char_of r]"

definition ContainsRune :: "string \<Rightarrow> rune \<Rightarrow> bool" where
  "ContainsRune s r = (0 \<le> r \<and> r < 128 \<and> char_of r \<in> set s)"

definition HasPrefix :: "string \<Rightarrow> string \<Rightarrow> bool" where
  "HasPrefix s pre = (length pre \<le> length s \<and> take (length pre) s = pre)"

definition HasSuffix :: "string \<Rightarrow> string \<Rightarrow> bool" where
  "HasSuffix s suf = (length suf \<le> length s \<and> drop (length s - length suf) s = suf)"

definition TrimSuffix :: "string \<Rightarrow> string \<Rightarrow> string" where
  "TrimSuffix s suf = (if HasSuffix s suf then take (length s - length suf) s else s)"

subsection \<open>The engine\<close>

text \<open>
  \<open>Operands0\<close> and \<open>Operands1\<close> are the two elements of the array \<open>Operands\<close>.
  The methods write the engine in place and return an error value, so the model of a
  call returns the engine after the call together with the error (\<open>None\<close> is nil);
  \<open>Panic\<close> is a run-time panic (a nil pointer dereferenced, or \<open>ErrNaN\<close> from
  \<open>math/big\<close>), after which there is no engine to speak of.
\<close>

datatype error = ErrUnsupported | ErrDivisionByZero

record 'f Calculator =
  Display :: string
  Operands0 :: "'f option"
  Operands1 :: "'f option"
  Operator :: "rune option"

datatype 'f outcome = Return "'f Calculator" "error option" | Panic

definition reset :: "'f Calculator \<Rightarrow> 'f Calculator" where
  "reset c = c\<lparr> Display := ''0'', Operator := None, Operands0 := None, Operands1 := None \<rparr>"

definition NewCalculator :: "'f Calculator" where
  "NewCalculator = \<lparr> Display = ''0'', Operands0 = None, Operands1 = None, Operator = None \<rparr>"

definition ProcessOperand :: "'f math_big \<Rightarrow> rune \<Rightarrow> 'f Calculator \<Rightarrow> 'f outcome" where
  "ProcessOperand M r c =
     (let isDigit = (rune CHR ''0'' \<le> r \<and> r \<le> rune CHR ''9'') in
      if \<not> (isDigit \<or> r = rune CHR ''.'' \<and> \<not> ContainsRune (Display c) (rune CHR ''.''))
      then Return c (Some ErrUnsupported)
      else
        let c1 = (if Display c \<in> set [''NaN'', ''Inf'', ''+Inf'', ''-Inf''] then reset c else c);
            c2 = (if Operator c1 \<noteq> None \<and> Operands1 c1 = None
                  then c1\<lparr> Display := ''0'', Operands1 := Some (newFloat M) \<rparr> else c1);
            c3 = (if Display c2 = ''0'' \<and> r \<noteq> rune CHR ''.''
                  then c2\<lparr> Display := string_of_rune r \<rparr>
                  else c2\<lparr> Display := Display c2 @ string_of_rune r \<rparr>)
        in Return c3 None)"

text \<open>
  The \<open>switch\<close> of \<open>calculate\<close>, run after \<open>Operands[1]\<close> has been overwritten with
  the parsed display (\<open>operand\<close>): \<open>Some (Inr result)\<close> is the value of \<open>result\<close>
  when the switch is left, \<open>Some (Inl e)\<close> a \<open>return e\<close> inside it, \<open>None\<close> a panic.
  \<open>Operands[0]\<close> and \<open>Operator\<close> are dereferenced where the source dereferences them.
  An operator that matches no case leaves \<open>result\<close> as \<open>new(big.Float)\<close>.
\<close>

definition calculate_switch ::
  "'f math_big \<Rightarrow> rune \<Rightarrow> 'f option \<Rightarrow> 'f \<Rightarrow> (error + 'f) option" where
  "calculate_switch M op operand0 operand =
     (let result = newFloat M in
      if op = rune CHR ''+'' then
        (case operand0 of None \<Rightarrow> None
         | Some a \<Rightarrow> map_option Inr (Float_Add M result a operand))
      else if op = rune CHR ''-'' then
        (case operand0 of None \<Rightarrow> None
         | Some a \<Rightarrow> map_option Inr (Float_Sub M result a operand))
      else if op = rune CHR ''*'' then
        (case operand0 of None \<Rightarrow> None
         | Some a \<Rightarrow> map_option Inr (Float_Mul M result a operand))
      else if op = rune CHR ''/'' then
        (if Float_Sign M operand = 0 then Some (Inl ErrDivisionByZero)
         else case operand0 of None \<Rightarrow> None
              | Some a \<Rightarrow> map_option Inr (Float_Quo M result a operand))
      else if op = rune CHR ''%'' then
        (if Float_Sign M operand = 0 then Some (Inl ErrDivisionByZero)
         else case operand0 of None \<Rightarrow> None
              | Some a \<Rightarrow>
                 (case Float_Quo M (newFloat M) a operand of None \<Rightarrow> None
                  | Some quo \<Rightarrow>
                     (case Float_Int M quo of None \<Rightarrow> None
                      | Some floorInt \<Rightarrow>
                         let floor = Float_SetInt M (newFloat M) floorInt in
                         (case Float_Mul M (newFloat M) operand floor of None \<Rightarrow> None
                          | Some mul \<Rightarrow> map_option Inr (Float_Sub M (newFloat M) a mul)))))
      else Some (Inr result))"

definition calculate :: "'f math_big \<Rightarrow> 'f Calculator \<Rightarrow> 'f outcome" where
  "calculate M c =
     (if Operands1 c = None then Return c (Some ErrUnsupported)
      else case Float_SetString M (newFloat M) (Display c) of
        None \<Rightarrow> Return c (Some ErrUnsupported)
      | Some operand \<Rightarrow>
          let c1 = c\<lparr> Operands1 := Some operand \<rparr> in
          (case Operator c1 of
             None \<Rightarrow> Panic
           | Some op \<Rightarrow>
              (case calculate_switch M op (Operands0 c1) operand of
                 None \<Rightarrow> Panic
               | Some (Inl e) \<Rightarrow> Return c1 (Some e)
               | Some (Inr result) \<Rightarrow>
                   let result' = (if Float_Sign M result = 0
                                  then Float_SetFloat64_0 M (newFloat M) else result)
                   in Return ((reset c1)\<lparr> Display := TrimSuffix (Float_Text M result') ''.0'' \<rparr>)
                        None)))"

definition ProcessOperator :: "'f math_big \<Rightarrow> rune \<Rightarrow> 'f Calculator \<Rightarrow> 'f outcome" where
  "ProcessOperator M r c =
     (if r = rune CHR ''C'' then Return (c\<lparr> Display := ''0'' \<rparr>) None
      else if r = rune CHR ''T'' then
        (if Display c = ''0'' then Return c None
         else if HasPrefix (Display c) ''-'' then Return (c\<lparr> Display := drop 1 (Display c) \<rparr>) None
         else Return (c\<lparr> Display := ''-'' @ Display c \<rparr>) None)
      else if r = rune CHR ''='' then calculate M c
      else if \<not> ContainsRune ''%/*-+'' r \<or> Operator c \<noteq> None then Return c (Some ErrUnsupported)
      else case Float_SetString M (newFloat M) (Display c) of
             None \<Rightarrow> Return c (Some ErrUnsupported)
           | Some operand \<Rightarrow> Return (c\<lparr> Operands0 := Some operand, Operator := Some r \<rparr>) None)"

text \<open>
  The engines a caller can hold: a new one, and the one left by any returning call of
  \<open>ProcessOperand\<close> or \<open>ProcessOperator\<close>, whether or not the call returned an error.
\<close>

inductive reachable :: "'f math_big \<Rightarrow> 'f Calculator \<Rightarrow> bool" for M :: "'f math_big" where
  reachable_New: "reachable M NewCalculator"
| reachable_Operand: "reachable M c \<Longrightarrow> ProcessOperand M r c = Return c' e \<Longrightarrow> reachable M c'"
| reachable_Operator: "reachable M c \<Longrightarrow> ProcessOperator M r c = Return c' e \<Longrightarrow> reachable M c'"

subsection \<open>Pressing keys\<close>

text \<open>
  \<open>handleCallback\<close> sends a one-byte key to \<open>ProcessOperand\<close> when it is a digit or
  \<open>'.'\<close> and to \<open>ProcessOperator\<close> otherwise. The engine it calls is the one held in
  the store, written in place, so it is also the engine of the next key when the call
  returned an error. \<open>presses\<close> gives the outcome of the last key of a sequence.
\<close>

definition press :: "'f math_big \<Rightarrow> rune \<Rightarrow> 'f Calculator \<Rightarrow> 'f outcome" where
  "press M r c =
     (if ContainsRune ''0123456789.'' r then ProcessOperand M r c else ProcessOperator M r c)"

fun presses :: "'f math_big \<Rightarrow> rune list \<Rightarrow> 'f Calculator \<Rightarrow> 'f outcome" where
  "presses M [] c = Return c None"
| "presses M (r # rs) c =
     (case press M r c of
        Panic \<Rightarrow> Panic
      | Return c' e \<Rightarrow> if rs = [] then Return c' e else presses M rs c')"

definition keys :: "string \<Rightarrow> rune list" where
  "keys s = map rune s"

section \<open>A model of \<open>math/big.Float\<close>\<close>

text \<open>
  An instance of the interface, used to run the engine on concrete key sequences.
  It follows the documentation of Go's \<open>math/big\<close>: a \<open>Float\<close> is a sign, a form
  (zero, finite or infinite), a precision \<open>prec\<close> in bits and, when finite, the value
  \<open>mant * 2 ^ exp\<close>. (The mantissa, an unsigned multi-precision number in Go, is an
  \<open>int\<close> that is never negative.) A finite value of precision \<open>prec\<close> is kept with
  \<open>2 ^ (prec - 1) \<le> mant < 2 ^ prec\<close> (Go keeps the mantissa normalised the same
  way, as a fraction), and has \<open>prec \<ge> 1\<close>; a zero or infinite value has
  \<open>mant = 0\<close> and \<open>exp = 0\<close>. Every operation rounds its exact result to the
  precision of its receiver, to nearest even (the rounding mode of a new \<open>Float\<close>);
  a receiver of precision 0 first takes the larger precision of the operands. The
  accuracy field \<open>acc\<close> is left out: the engine never reads it.
\<close>

datatype form = zero_form | finite_form | inf_form

record Float =
  prec :: nat
  neg :: bool
  form :: form
  mant :: int
  exp :: int

definition MaxExp :: int where
  "MaxExp = 2147483647"

definition MinExp :: int where
  "MinExp = - 2147483648"

function bitLen :: "int \<Rightarrow> nat" where
  "bitLen n = (if n \<le> 0 then 0 else Suc (bitLen (n div 2)))"
  by pat_completeness auto
termination
  by (relation "measure nat") auto

declare bitLen.simps [simp del]

definition mkZero :: "nat \<Rightarrow> bool \<Rightarrow> Float" where
  "mkZero p s = \<lparr> prec = p, neg = s, form = zero_form, mant = 0, exp = 0 \<rparr>"

definition mkInf :: "nat \<Rightarrow> bool \<Rightarrow> Float" where
  "mkInf p s = \<lparr> prec = p, neg = s, form = inf_form, mant = 0, exp = 0 \<rparr>"

definition mkFinite :: "nat \<Rightarrow> bool \<Rightarrow> int \<Rightarrow> int \<Rightarrow> Float" where
  "mkFinite p s m e = \<lparr> prec = p, neg = s, form = finite_form, mant = m, exp = e \<rparr>"

text \<open>
  \<open>setExpAndRound\<close> followed by \<open>round\<close>: the value \<open>m * 2 ^ e\<close>, with \<open>sbit\<close>
  telling that a non-zero part below the last bit of \<open>m\<close> was cut off, rounded to
  \<open>p\<close> bits. As a fraction \<open>0.m\<close> the value has the exponent \<open>e + bitLen m\<close>, which
  must lie between \<open>MinExp\<close> and \<open>MaxExp\<close>: below, the result is a zero; above, or
  when rounding carries out of the top bit at \<open>MaxExp\<close>, an infinity.
\<close>

definition setExpAndRound :: "nat \<Rightarrow> bool \<Rightarrow> int \<Rightarrow> int \<Rightarrow> bool \<Rightarrow> Float" where
  "setExpAndRound p s m e sbit =
     (let bits = bitLen m; fexp = e + int bits in
      if m \<le> 0 then mkZero p s
      else if fexp < MinExp then mkZero p s
      else if fexp > MaxExp then mkInf p s
      else if bits \<le> p then mkFinite p s (m * 2 ^ (p - bits)) (e - int (p - bits))
      else
        let r = bits - p;
            q = m div 2 ^ r;
            rest = m mod 2 ^ r;
            half = 2 ^ (r - 1);
            inc = (rest > half \<or> (rest = half \<and> (sbit \<or> odd q)));
            q' = (if inc then q + 1 else q)
        in if q' = 2 ^ p
           then (if fexp \<ge> MaxExp then mkInf p s else mkFinite p s (2 ^ (p - 1)) (e + int r + 1))
           else mkFinite p s q' (e + int r))"

definition umax32 :: "nat \<Rightarrow> nat \<Rightarrow> nat" where
  "umax32 x y = (if x > y then x else y)"

definition recv_prec :: "Float \<Rightarrow> Float \<Rightarrow> Float \<Rightarrow> nat" where
  "recv_prec z x y = (if prec z = 0 then umax32 (prec x) (prec y) else prec z)"

text \<open>\<open>z.Set(x)\<close> for a receiver whose precision \<open>p\<close> has been fixed already.\<close>

definition set_to :: "nat \<Rightarrow> Float \<Rightarrow> Float" where
  "set_to p x =
     (case form x of
        zero_form \<Rightarrow> mkZero p (neg x)
      | inf_form \<Rightarrow> mkInf p (neg x)
      | finite_form \<Rightarrow> setExpAndRound p (neg x) (mant x) (exp x) False)"

text \<open>
  The unsigned operations on finite values, on mantissas aligned at the smaller of the
  two exponents. \<open>usub\<close> is called with the larger magnitude first, or with equal
  ones, and then gives \<open>+0\<close>.
\<close>

definition aligned :: "Float \<Rightarrow> Float \<Rightarrow> int \<times> int \<times> int" where
  "aligned x y =
     (let e = min (exp x) (exp y)
      in (mant x * 2 ^ nat (exp x - e), mant y * 2 ^ nat (exp y - e), e))"

definition ucmp :: "Float \<Rightarrow> Float \<Rightarrow> int" where
  "ucmp x y = (case aligned x y of (a, b, e) \<Rightarrow> if a < b then - 1 else if a > b then 1 else 0)"

definition uadd :: "nat \<Rightarrow> bool \<Rightarrow> Float \<Rightarrow> Float \<Rightarrow> Float" where
  "uadd p s x y = (case aligned x y of (a, b, e) \<Rightarrow> setExpAndRound p s (a + b) e False)"

definition usub :: "nat \<Rightarrow> bool \<Rightarrow> Float \<Rightarrow> Float \<Rightarrow> Float" where
  "usub p s x y =
     (case aligned x y of (a, b, e) \<Rightarrow>
        if a - b \<le> 0 then mkZero p False else setExpAndRound p s (a - b) e False)"

definition umul :: "nat \<Rightarrow> bool \<Rightarrow> Float \<Rightarrow> Float \<Rightarrow> Float" where
  "umul p s x y = setExpAndRound p s (mant x * mant y) (exp x + exp y) False"

text \<open>
  \<open>uquo\<close> divides the mantissas after extending the dividend so that the quotient has
  at least two bits more than the precision; a non-zero remainder is the sticky bit.
\<close>

definition uquo :: "nat \<Rightarrow> bool \<Rightarrow> int \<Rightarrow> int \<Rightarrow> int \<Rightarrow> int \<Rightarrow> Float" where
  "uquo p s mx ex my ey =
     (let k = (p + 2 + bitLen my) - bitLen mx;
          n = mx * 2 ^ k
      in setExpAndRound p s (n div my) (ex - ey - int k) (n mod my \<noteq> 0))"

definition Add :: "Float \<Rightarrow> Float \<Rightarrow> Float \<Rightarrow> Float option" where
  "Add z x y =
     (let p = recv_prec z x y in
      if form x = finite_form \<and> form y = finite_form then
        (if neg x = neg y then Some (uadd p (neg x) x y)
         else if ucmp x y > 0 then Some (usub p (neg x) x y)
         else Some (usub p (\<not> neg x) y x))
      else if form x = inf_form \<and> form y = inf_form \<and> neg x \<noteq> neg y then None
      else if form x = zero_form \<and> form y = zero_form then Some (mkZero p (neg x \<and> neg y))
      else if form x = inf_form \<or> form y = zero_form then Some (set_to p x)
      else Some (set_to p y))"

definition Sub :: "Float \<Rightarrow> Float \<Rightarrow> Float \<Rightarrow> Float option" where
  "Sub z x y =
     (let p = recv_prec z x y in
      if form x = finite_form \<and> form y = finite_form then
        (if neg x \<noteq> neg y then Some (uadd p (neg x) x y)
         else if ucmp x y > 0 then Some (usub p (neg x) x y)
         else Some (usub p (\<not> neg x) y x))
      else if form x = inf_form \<and> form y = inf_form \<and> neg x = neg y then None
      else if form x = zero_form \<and> form y = zero_form then Some (mkZero p (neg x \<and> \<not> neg y))
      else if form x = inf_form \<or> form y = zero_form then Some (set_to p x)
      else Some ((set_to p y)\<lparr> neg := \<not> neg y \<rparr>))"

definition Mul :: "Float \<Rightarrow> Float \<Rightarrow> Float \<Rightarrow> Float option" where
  "Mul z x y =
     (let p = recv_prec z x y; s = (neg x \<noteq> neg y) in
      if form x = finite_form \<and> form y = finite_form then Some (umul p s x y)
      else if form x = zero_form \<and> form y = inf_form \<or> form x = inf_form \<and> form y = zero_form
      then None
      else if form x = inf_form \<or> form y = inf_form then Some (mkInf p s)
      else Some (mkZero p s))"

definition Quo :: "Float \<Rightarrow> Float \<Rightarrow> Float \<Rightarrow> Float option" where
  "Quo z x y =
     (let p = recv_prec z x y; s = (neg x \<noteq> neg y) in
      if form x = finite_form \<and> form y = finite_form
      then Some (uquo p s (mant x) (exp x) (mant y) (exp y))
      else if form x = zero_form \<and> form y = zero_form \<or> form x = inf_form \<and> form y = inf_form
      then None
      else if form x = zero_form \<or> form y = inf_form then Some (mkZero p s)
      else Some (mkInf p s))"

definition Sign :: "Float \<Rightarrow> int" where
  "Sign x = (if form x = zero_form then 0 else if neg x then - 1 else 1)"

text \<open>\<open>x.Int(nil)\<close>: the integer part, truncated towards zero; nil for an infinity.\<close>

definition Int_of :: "Float \<Rightarrow> int option" where
  "Int_of x =
     (case form x of
        zero_form \<Rightarrow> Some 0
      | inf_form \<Rightarrow> None
      | finite_form \<Rightarrow>
          let a = (if exp x \<ge> 0 then mant x * 2 ^ nat (exp x) else mant x div 2 ^ nat (- exp x))
          in Some (if neg x then - a else a))"

definition SetInt :: "Float \<Rightarrow> int \<Rightarrow> Float" where
  "SetInt z i =
     (let bits = bitLen \<bar>i\<bar>;
          p = (if prec z = 0 then umax32 bits 64 else prec z)
      in if i = 0 then mkZero p False else setExpAndRound p (i < 0) \<bar>i\<bar> 0 False)"

definition SetFloat64_0 :: "Float \<Rightarrow> Float" where
  "SetFloat64_0 z = mkZero (if prec z = 0 then 53 else prec z) False"

subsection \<open>Parsing decimal text\<close>

text \<open>
  \<open>z.SetString(s)\<close>, that is \<open>z.Parse(s, 0)\<close> with the whole string consumed, for the
  texts the engine can hold in its display: \<open>Inf\<close> and \<open>inf\<close> with an optional sign,
  and decimal numbers, an optional sign followed by digits with at most one \<open>'.'\<close> and
  at least one digit. The other syntax of Go number literals (base prefixes,
  underscores, exponents) needs characters that no key of the engine produces; this
  instance rejects it, and no statement below depends on that.

  The parser keeps all digits as an integer \<open>D\<close>; with \<open>f\<close> digits after the point the
  value is \<open>D * 2 ^ (- f) / 5 ^ f\<close>, computed by one rounded division by \<open>pow5 f\<close>, a
  \<open>Float\<close> of 64 more bits (itself rounded when \<open>5 ^ f\<close> needs more than those, by
  multiplications in the order \<open>pow5\<close> makes them).
\<close>

definition is_digit :: "char \<Rightarrow> bool" where
  "is_digit c = (c \<in> set ''0123456789'')"

definition digits_value :: "string \<Rightarrow> int" where
  "digits_value ds = foldl (\<lambda>a c. 10 * a + (of_char c - 48)) 0 ds"

definition scanSign :: "string \<Rightarrow> bool \<times> string" where
  "scanSign s =
     (case s of
        [] \<Rightarrow> (False, [])
      | c # cs \<Rightarrow> if c = CHR ''-'' then (True, cs) else if c = CHR ''+'' then (False, cs)
                  else (False, s))"

fun pow5_loop :: "Float \<Rightarrow> Float \<Rightarrow> nat \<Rightarrow> Float" where
  "pow5_loop z f n =
     (if n = 0 then z
      else pow5_loop (if odd n then umul (prec z) False z f else z)
                     (umul (prec f) False f f) (n div 2))"

declare pow5_loop.simps [simp del]

definition pow5 :: "nat \<Rightarrow> nat \<Rightarrow> Float" where
  "pow5 p n =
     (if n \<le> 27 then setExpAndRound p False (5 ^ n) 0 False
      else pow5_loop (setExpAndRound p False (5 ^ 27) 0 False)
                     (setExpAndRound (p + 64) False 5 0 False) (n - 27))"

definition SetString :: "Float \<Rightarrow> string \<Rightarrow> Float option" where
  "SetString z s =
     (if s = ''Inf'' \<or> s = ''inf'' then Some (mkInf (prec z) False)
      else if s = ''+Inf'' \<or> s = ''+inf'' then Some (mkInf (prec z) False)
      else if s = ''-Inf'' \<or> s = ''-inf'' then Some (mkInf (prec z) True)
      else
        let p = (if prec z = 0 then 64 else prec z);
            (sgn, rest) = scanSign s;
            ip = takeWhile is_digit rest;
            r1 = dropWhile is_digit rest;
            (fp, r2) = (case r1 of
                          [] \<Rightarrow> ([], [])
                        | c # cs \<Rightarrow> if c = CHR ''.''
                                    then (takeWhile is_digit cs, dropWhile is_digit cs)
                                    else ([], r1))
        in if ip @ fp = [] \<or> r2 \<noteq> [] then None
           else
             let D = digits_value (ip @ fp); f = length fp in
             if D = 0 then Some (mkZero p sgn)
             else if int (bitLen D) - int f < MinExp \<or> MaxExp < int (bitLen D) - int f then None
             else if f = 0 then Some (setExpAndRound p sgn D 0 False)
             else let y = pow5 (p + 64) f
                  in Some (uquo p sgn D (- int f) (mant y) (exp y)))"

subsection \<open>Printing the shortest decimal text\<close>

text \<open>
  \<open>x.Text('f', -1)\<close>: the exact decimal expansion of \<open>x\<close> is cut to the fewest
  digits that still round to \<open>x\<close> at the precision of \<open>x\<close> (\<open>roundShortest\<close>), and
  printed with as many digits after the point as remain. A \<open>decimal\<close> is the digits
  \<open>dmant\<close>, without leading or trailing zeros, of the value \<open>0.dmant * 10 ^ dexp\<close>.
  Digits are numbers below 10; \<open>digit_char\<close> is the byte \<open>'0' + d\<close> (the \<open>mod\<close>
  only makes it a digit for every \<open>nat\<close>).
\<close>

record decimal =
  dmant :: "nat list"
  dexp :: int

function utoa_acc :: "int \<Rightarrow> nat list \<Rightarrow> nat list" where
  "utoa_acc n acc =
     (if n < 10 then nat n # acc else utoa_acc (n div 10) (nat (n mod 10) # acc))"
  by pat_completeness auto
termination
  by (relation "measure (\<lambda>(n, acc). nat n)") auto

declare utoa_acc.simps [simp del]

definition utoa :: "int \<Rightarrow> nat list" where
  "utoa n = utoa_acc n []"

definition trim :: "nat list \<Rightarrow> nat list" where
  "trim ds = rev (dropWhile (\<lambda>d. d = 0) (rev ds))"

definition decimal_init :: "int \<Rightarrow> int \<Rightarrow> decimal" where
  "decimal_init m shift =
     (if m \<le> 0 then \<lparr> dmant = [], dexp = 0 \<rparr>
      else
        let k = (if shift < 0 then nat (- shift) else 0);
            N = (if shift < 0 then m * 5 ^ k else m * 2 ^ nat shift);
            s = utoa N
        in \<lparr> dmant = trim s, dexp = int (length s) - int k \<rparr>)"

definition decimal_at :: "decimal \<Rightarrow> int \<Rightarrow> nat" where
  "decimal_at d i = (if 0 \<le> i \<and> i < int (length (dmant d)) then dmant d ! nat i else 0)"

definition roundUp :: "decimal \<Rightarrow> nat \<Rightarrow> decimal" where
  "roundUp d n =
     (if n \<ge> length (dmant d) then d
      else
        let n' = length (rev (dropWhile (\<lambda>c. c \<ge> 9) (rev (take n (dmant d)))))
        in if n' = 0 then \<lparr> dmant = [1], dexp = dexp d + 1 \<rparr>
           else d\<lparr> dmant := take (n' - 1) (dmant d) @ [dmant d ! (n' - 1) + 1] \<rparr>)"

definition roundDown :: "decimal \<Rightarrow> nat \<Rightarrow> decimal" where
  "roundDown d n =
     (if n \<ge> length (dmant d) then d else d\<lparr> dmant := trim (take n (dmant d)) \<rparr>)"

definition shouldRoundUp :: "decimal \<Rightarrow> nat \<Rightarrow> bool" where
  "shouldRoundUp d n =
     (if dmant d ! n = 5 \<and> n + 1 = length (dmant d)
      then n > 0 \<and> odd (dmant d ! (n - 1))
      else dmant d ! n \<ge> 5)"

definition decimal_round :: "decimal \<Rightarrow> nat \<Rightarrow> decimal" where
  "decimal_round d n =
     (if n \<ge> length (dmant d) then d
      else if shouldRoundUp d n then roundUp d n else roundDown d n)"

fun shortest_walk :: "decimal \<Rightarrow> decimal \<Rightarrow> decimal \<Rightarrow> bool \<Rightarrow> nat \<Rightarrow> nat list \<Rightarrow> decimal" where
  "shortest_walk d lower upper inclusive i [] = d"
| "shortest_walk d lower upper inclusive i (m # ms) =
     (let l = decimal_at lower (int i);
          u = decimal_at upper (int i);
          okdown = (l \<noteq> m \<or> inclusive \<and> i + 1 = length (dmant lower));
          okup = (m \<noteq> u \<and> (inclusive \<or> m + 1 < u \<or> i + 1 < length (dmant upper)))
      in if okdown \<and> okup then decimal_round d (i + 1)
         else if okdown then roundDown d (i + 1)
         else if okup then roundUp d (i + 1)
         else shortest_walk d lower upper inclusive (i + 1) ms)"

definition roundShortest :: "decimal \<Rightarrow> Float \<Rightarrow> decimal" where
  "roundShortest d x =
     (if dmant d = [] then d
      else
        let lower = decimal_init (2 * mant x - 1) (exp x - 1);
            upper = decimal_init (2 * mant x + 1) (exp x - 1);
            inclusive = even (mant x)
        in shortest_walk d lower upper inclusive 0 (dmant d))"

definition digit_char :: "nat \<Rightarrow> char" where
  "digit_char d = char_of (48 + d mod 10)"

definition fmtF :: "nat \<Rightarrow> decimal \<Rightarrow> string" where
  "fmtF p d =
     (if dexp d > 0
      then (let m = min (length (dmant d)) (nat (dexp d))
            in map digit_char (take m (dmant d)) @ replicate (nat (dexp d) - m) CHR ''0'')
      else ''0'')
     @ (if p > 0 then CHR ''.'' # map (\<lambda>i. digit_char (decimal_at d (dexp d + int i))) [0..<p] else [])"

definition Text :: "Float \<Rightarrow> string" where
  "Text x =
     (if neg x then ''-'' else [])
     @ (if form x = inf_form then (if neg x then [] else ''+'') @ ''Inf''
        else
          let d0 = (if form x = finite_form then decimal_init (mant x) (exp x)
                    else \<lparr> dmant = [], dexp = 0 \<rparr>);
              d = roundShortest d0 x;
              p = nat (max (int (length (dmant d)) - dexp d) 0)
          in fmtF p d)"

definition gobig :: "Float math_big" where
  "gobig = \<lparr> newFloat = mkZero 0 False,
             Float_SetString = SetString,
             Float_SetInt = SetInt,
             Float_SetFloat64_0 = SetFloat64_0,
             Float_Add = Add,
             Float_Sub = Sub,
             Float_Mul = Mul,
             Float_Quo = Quo,
             Float_Sign = Sign,
             Float_Int = Int_of,
             Float_Text = Text \<rparr>"

section \<open>Predicates and functions of the statements\<close>

text \<open>
  \<open>display_ok\<close> is the invariant of the display that the engine's operations keep: the
  text is not empty, is not a lone \<open>-\<close>, does not start with \<open>--\<close> and has at most
  one \<open>'.'\<close>. \<open>Text_wf M\<close> says that the library \<open>M\<close> only prints such texts, once
  the engine has trimmed a final \<open>.0\<close>. \<open>shown M r\<close> is the engine after a successful
  evaluation with result \<open>r\<close>: reset, with the text of \<open>r\<close> in the display, a zero
  result replaced by \<open>SetFloat64(0)\<close> first. \<open>horner\<close> is the number written by a list
  of decimal digits.
\<close>

definition display_ok :: "string \<Rightarrow> bool" where
  "display_ok d \<longleftrightarrow>
     d \<noteq> [] \<and> d \<noteq> ''-'' \<and> \<not> HasPrefix d ''--'' \<and> count_list d CHR ''.'' \<le> 1"

definition Text_wf :: "'f math_big \<Rightarrow> bool" where
  "Text_wf M \<longleftrightarrow> (\<forall>x. display_ok (TrimSuffix (Float_Text M x) ''.0''))"

definition shown :: "'f math_big \<Rightarrow> 'f \<Rightarrow> 'f Calculator" where
  "shown M r =
     \<lparr> Display = TrimSuffix (Float_Text M (if Float_Sign M r = 0
                                            then Float_SetFloat64_0 M (newFloat M) else r)) ''.0'',
       Operands0 = None, Operands1 = None, Operator = None \<rparr>"

definition horner :: "nat list \<Rightarrow> int" where
  "horner ds = foldl (\<lambda>a d. 10 * a + int d) 0 ds"

section \<open>Properties of the session store\<close>

lemma UnixNano_in_int64 [simp]: "in_int64 t \<Longrightarrow> UnixNano t = t"
  by (simp add: in_int64_def UnixNano_def)

lemma in_int64_UnixNano: "in_int64 (UnixNano t)"
  by (simp add: in_int64_def UnixNano_def)









text \<open>
  Claim C6, as stated, fails: \<open>Get\<close> and \<open>IsEmpty\<close> remove nothing, and \<open>IsEmpty\<close>
  does not look at \<open>expireAt\<close>. A store whose only entry expired at 20 is, at time 25
  and with no sweep since, not empty, although \<open>Get\<close> already returns nil for the key.
\<close>

theorem IsEmpty_ignores_expiry_counterexample:
  "dom (items (Set 0 ''a'' (Some (7::nat)) (NewMemcached 20 5))) = {''a''}
   \<and> items (Set 0 ''a'' (Some (7::nat)) (NewMemcached 20 5)) ''a''
       = Some \<lparr> cvalue = Some 7, expireAt = 20 \<rparr>
   \<and> Get 25 ''a'' (Set 0 ''a'' (Some (7::nat)) (NewMemcached 20 5)) = None
   \<and> \<not> IsEmpty (Set 0 ''a'' (Some (7::nat)) (NewMemcached 20 5))"
  by (simp add: Set_def NewMemcached_def Get_def IsEmpty_def in_int64_def)

lemma IsEmpty_cleanExpiredItems:
  "IsEmpty (cleanExpiredItems now mc) \<longleftrightarrow> (\<forall>k e. items mc k = Some e \<longrightarrow> expireAt e < now)"
proof
  assume empty: "IsEmpty (cleanExpiredItems now mc)"
  show "\<forall>k e. items mc k = Some e \<longrightarrow> expireAt e < now"
  proof (intro allI impI)
    fix k e
    assume entry: "items mc k = Some e"
    from empty have "items (cleanExpiredItems now mc) k = None"
      by (auto simp: IsEmpty_def dom_def)
    with entry show "expireAt e < now"
      by (simp add: cleanExpiredItems_def split: if_splits)
  qed
next
  assume "\<forall>k e. items mc k = Some e \<longrightarrow> expireAt e < now"
  then show "IsEmpty (cleanExpiredItems now mc)"
    by (auto simp: IsEmpty_def cleanExpiredItems_def dom_def split: option.splits)
qed

text \<open>
  Claim C6, amended. An expired entry leaves the map only through a sweep
  (\<open>cleanExpiredItems\<close>, run by the reaper and by \<open>Shutdown\<close>), which removes exactly
  the entries with \<open>now > expireAt\<close>. \<open>IsEmpty\<close> is true exactly when the map has no
  entry at all: it is false while an unexpired entry exists, before and after a sweep,
  and a sweep makes it true exactly when every entry has expired at the time of the
  sweep.
\<close>

theorem IsEmpty_after_sweep:
  "(IsEmpty mc \<longleftrightarrow> (\<forall>k. items mc k = None))
   \<and> items (cleanExpiredItems now mc) k =
       (case items mc k of None \<Rightarrow> None
        | Some e \<Rightarrow> if now > expireAt e then None else Some e)
   \<and> (IsEmpty (cleanExpiredItems now mc) \<longleftrightarrow>
        (\<forall>k e. items mc k = Some e \<longrightarrow> expireAt e < now))
   \<and> (\<forall>e. items mc k = Some e \<and> now \<le> expireAt e \<longrightarrow>
        \<not> IsEmpty mc \<and> \<not> IsEmpty (cleanExpiredItems now mc))"
proof (intro conjI)
  show "IsEmpty mc \<longleftrightarrow> (\<forall>k. items mc k = None)"
    by (auto simp: IsEmpty_def dom_def)
  show "items (cleanExpiredItems now mc) k =
       (case items mc k of None \<Rightarrow> None
        | Some e \<Rightarrow> if now > expireAt e then None else Some e)"
    by (simp add: cleanExpiredItems_def)
  show "IsEmpty (cleanExpiredItems now mc) \<longleftrightarrow>
        (\<forall>k e. items mc k = Some e \<longrightarrow> expireAt e < now)"
    by (rule IsEmpty_cleanExpiredItems)
  show "\<forall>e. items mc k = Some e \<and> now \<le> expireAt e \<longrightarrow>
        \<not> IsEmpty mc \<and> \<not> IsEmpty (cleanExpiredItems now mc)"
  proof (intro allI impI)
    fix e
    assume live: "items mc k = Some e \<and> now \<le> expireAt e"
    then have "\<not> IsEmpty mc"
      by (auto simp: IsEmpty_def dom_def)
    moreover from live have "\<not> (\<forall>k e. items mc k = Some e \<longrightarrow> expireAt e < now)"
      by force
    then have "\<not> IsEmpty (cleanExpiredItems now mc)"
      by (simp add: IsEmpty_cleanExpiredItems)
    ultimately show "\<not> IsEmpty mc \<and> \<not> IsEmpty (cleanExpiredItems now mc)" ..
  qed
qed

theorem IsEmpty_after_sweep_witness:
  "\<not> IsEmpty (Set 0 ''a'' (Some (7::nat)) (NewMemcached 20 5))
   \<and> \<not> IsEmpty (cleanExpiredItems 20 (Set 0 ''a'' (Some (7::nat)) (NewMemcached 20 5)))
   \<and> IsEmpty (cleanExpiredItems 25 (Set 0 ''a'' (Some (7::nat)) (NewMemcached 20 5)))"
proof -
  let ?mc = "Set 0 ''a'' (Some (7::nat)) (NewMemcached 20 5)"
  have entry: "items ?mc ''a'' = Some \<lparr> cvalue = Some 7, expireAt = 20 \<rparr>"
    by (simp add: Set_def NewMemcached_def in_int64_def)
  have only: "\<forall>k e. items ?mc k = Some e \<longrightarrow> expireAt e < 25"
    by (simp add: Set_def NewMemcached_def in_int64_def)
  have "\<forall>e. items ?mc ''a'' = Some e \<and> 20 \<le> expireAt e \<longrightarrow>
          \<not> IsEmpty ?mc \<and> \<not> IsEmpty (cleanExpiredItems 20 ?mc)"
    using IsEmpty_after_sweep [of ?mc 20 "''a''"] by blast
  with entry have "\<not> IsEmpty ?mc \<and> \<not> IsEmpty (cleanExpiredItems 20 ?mc)"
    by simp
  moreover have "IsEmpty (cleanExpiredItems 25 ?mc)"
    using IsEmpty_after_sweep [of ?mc 25 "''a''"] only by blast
  ultimately show ?thesis by simp
qed

subsection \<open>The backoff intervals\<close>

lemma nextInterval_Some:
  assumes "10 \<le> b"
  shows "\<exists>j. nextInterval raw b = Some (b + j, min (b * 2) shutdownIntervalMax) \<and> 0 \<le> j \<and> j < b div 10"
proof -
  from assms have pos: "0 < b div 10" by simp
  then have "Intn (b div 10) raw = Some (int raw mod (b div 10))"
    by (simp add: Intn_def)
  moreover have "0 \<le> int raw mod (b div 10)" "int raw mod (b div 10) < b div 10"
    using pos by simp_all
  ultimately show ?thesis
    by (auto simp: nextInterval_def Let_def min_def)
qed

lemma capped_base_step:
  fixes b M :: int
  assumes "0 \<le> b" "0 \<le> M"
  shows "min (2 ^ m * min (b * 2) M) M = min (2 ^ Suc m * b) M"
proof (cases "b * 2 \<le> M")
  case True
  then show ?thesis by (simp add: mult.commute mult.left_commute)
next
  case False
  have one: "(1::int) \<le> 2 ^ m" by simp
  from False have le: "M \<le> b * 2" by simp
  have grow: "M \<le> 2 ^ m * M"
    using mult_right_mono [OF one assms(2)] by simp
  also have "2 ^ m * M \<le> 2 ^ m * (b * 2)"
    using le by (simp add: mult_left_mono)
  also have "2 ^ m * (b * 2) = 2 ^ Suc m * b"
    by simp
  finally have "M \<le> 2 ^ Suc m * b" .
  with False grow show ?thesis by (simp only: min_def split: if_splits) simp
qed

lemma intervals_bounds:
  "10 \<le> b \<Longrightarrow> b \<le> shutdownIntervalMax \<Longrightarrow>
   \<exists>ivs. intervals raws b = Some ivs \<and> length ivs = length raws \<and>
     (\<forall>n<length raws.
        min (2 ^ n * b) shutdownIntervalMax \<le> ivs ! n \<and>
        ivs ! n < min (2 ^ n * b) shutdownIntervalMax + min (2 ^ n * b) shutdownIntervalMax div 10)"
proof (induction raws arbitrary: b)
  case Nil
  then show ?case by simp
next
  case (Cons raw raws)
  let ?b' = "min (b * 2) shutdownIntervalMax"
  from Cons.prems obtain j where
    step: "nextInterval raw b = Some (b + j, ?b')" and j: "0 \<le> j" "j < b div 10"
    using nextInterval_Some by blast
  have M: "10 \<le> shutdownIntervalMax" by (simp add: shutdownIntervalMax_def Millisecond_def)
  from Cons.prems M have "10 \<le> ?b'" "?b' \<le> shutdownIntervalMax" by simp_all
  from Cons.IH [OF this] obtain rest where
    rest: "intervals raws ?b' = Some rest" "length rest = length raws"
      "\<forall>n<length raws.
        min (2 ^ n * ?b') shutdownIntervalMax \<le> rest ! n \<and>
        rest ! n < min (2 ^ n * ?b') shutdownIntervalMax + min (2 ^ n * ?b') shutdownIntervalMax div 10"
    by blast
  have shift: "min (2 ^ n * ?b') shutdownIntervalMax = min (2 ^ Suc n * b) shutdownIntervalMax" for n
    using capped_base_step [of b shutdownIntervalMax n] Cons.prems M by simp
  have "intervals (raw # raws) b = Some ((b + j) # rest)"
    using step rest(1) by simp
  moreover have "length ((b + j) # rest) = length (raw # raws)"
    using rest(2) by simp
  moreover have "\<forall>n<length (raw # raws).
        min (2 ^ n * b) shutdownIntervalMax \<le> ((b + j) # rest) ! n \<and>
        ((b + j) # rest) ! n < min (2 ^ n * b) shutdownIntervalMax + min (2 ^ n * b) shutdownIntervalMax div 10"
  proof (intro allI impI)
    fix n assume n: "n < length (raw # raws)"
    show "min (2 ^ n * b) shutdownIntervalMax \<le> ((b + j) # rest) ! n \<and>
        ((b + j) # rest) ! n < min (2 ^ n * b) shutdownIntervalMax + min (2 ^ n * b) shutdownIntervalMax div 10"
    proof (cases n)
      case 0
      with j Cons.prems show ?thesis by simp
    next
      case (Suc m)
      with n have "m < length raws" by simp
      with rest(3) have
        "min (2 ^ m * ?b') shutdownIntervalMax \<le> rest ! m \<and>
         rest ! m < min (2 ^ m * ?b') shutdownIntervalMax
                    + min (2 ^ m * ?b') shutdownIntervalMax div 10"
        by blast
      then show ?thesis
        by (simp only: shift Suc nth_Cons_Suc)
    qed
  qed
  ultimately show ?case by blast
qed

text \<open>
  Claim C8, amended. \<open>rand.Intn\<close> never panics in the loop, and the interval of
  round \<open>n\<close> (counted from 0) is that round's base plus a jitter below a tenth of
  the base, where the base starts at 1 ms, doubles each round and is capped at 500 ms.
  The cap bounds the base, not the interval: every interval is at least 1 ms and below
  550 ms.
\<close>

theorem shutdownIntervals_bounds:
  "\<exists>ivs. shutdownIntervals raws = Some ivs \<and> length ivs = length raws
     \<and> (\<forall>n<length raws.
          let base = min (2 ^ n * Millisecond) shutdownIntervalMax
          in base \<le> ivs ! n \<and> ivs ! n < base + base div 10)
     \<and> (\<forall>i\<in>set ivs. Millisecond \<le> i \<and> i < shutdownIntervalMax + shutdownIntervalMax div 10)"
proof -
  have "10 \<le> Millisecond" "Millisecond \<le> shutdownIntervalMax"
    by (simp_all add: Millisecond_def shutdownIntervalMax_def)
  from intervals_bounds [OF this, of raws] obtain ivs where
    ivs: "shutdownIntervals raws = Some ivs" "length ivs = length raws"
      "\<forall>n<length raws.
        min (2 ^ n * Millisecond) shutdownIntervalMax \<le> ivs ! n \<and>
        ivs ! n < min (2 ^ n * Millisecond) shutdownIntervalMax
                  + min (2 ^ n * Millisecond) shutdownIntervalMax div 10"
    unfolding shutdownIntervals_def by blast
  have "Millisecond \<le> i \<and> i < shutdownIntervalMax + shutdownIntervalMax div 10" if "i \<in> set ivs" for i
  proof -
    from that obtain n where n: "n < length ivs" "ivs ! n = i"
      by (auto simp: in_set_conv_nth)
    let ?base = "min (2 ^ n * Millisecond) shutdownIntervalMax"
    from n ivs have b: "?base \<le> i" "i < ?base + ?base div 10" by auto
    have "(1::int) \<le> 2 ^ n" by simp
    then have "Millisecond \<le> 2 ^ n * Millisecond"
      by (simp add: Millisecond_def)
    then have lo: "Millisecond \<le> ?base"
      by (simp add: shutdownIntervalMax_def Millisecond_def)
    have hi: "?base \<le> shutdownIntervalMax" by simp
    then have "?base div 10 \<le> shutdownIntervalMax div 10"
      by (rule zdiv_mono1) simp
    with b lo hi show ?thesis by linarith
  qed
  with ivs show ?thesis by (auto simp: Let_def)
qed

theorem shutdownIntervals_bounds_witness:
  "shutdownIntervals [3, 100000, 7] = Some [1000003, 2100000, 4000007]"
  using shutdownIntervals_bounds [of "[3, 100000, 7]"]
  by (simp add: shutdownIntervals_def nextInterval_def Intn_def Millisecond_def shutdownIntervalMax_def)

text \<open>
  Claim C8, as stated, fails: in the tenth round the base has reached the cap of 500 ms
  and the jitter is added on top of it, so a draw of 1 gives an interval of
  500 ms + 1 ns.
\<close>

theorem shutdown_interval_above_cap_counterexample:
  "shutdownIntervals [0, 0, 0, 0, 0, 0, 0, 0, 0, 1] =
     Some [1000000, 2000000, 4000000, 8000000, 16000000, 32000000, 64000000, 128000000,
           256000000, 500000001]
   \<and> shutdownIntervalMax < 500000001"
  by (simp add: shutdownIntervals_def nextInterval_def Intn_def Millisecond_def shutdownIntervalMax_def)

section \<open>Properties of the arithmetic engine\<close>

subsection \<open>Runes\<close>

lemma rune_eq_iff [simp]: "rune a = rune b \<longleftrightarrow> a = b"
  by (simp add: rune_def)

lemma string_of_rune_rune [simp]: "string_of_rune (rune c) = [c]"
  by (simp add: string_of_rune_def rune_def)

lemma ContainsRune_rune:
  "ContainsRune s (rune c) \<longleftrightarrow> (of_char c :: int) < 128 \<and> c \<in> set s"
proof -
  have "(of_char c :: int) = int (of_char c)"
    by (rule of_nat_of_char [symmetric])
  then have "(0::int) \<le> of_char c"
    by (simp only: of_nat_0_le_iff)
  then show ?thesis
    by (simp add: ContainsRune_def rune_def)
qed

lemma ContainsRune_dot [simp]: "ContainsRune s (rune CHR ''.'') \<longleftrightarrow> CHR ''.'' \<in> set s"
  by (simp add: ContainsRune_rune)

lemma rune_dot_not_digit [simp]: "\<not> (rune CHR ''0'' \<le> rune CHR ''.'')"
  by (simp add: rune_def)

subsection \<open>A second decimal separator\<close>

text \<open>
  Claim C10. \<open>ProcessOperand\<close> rejects \<open>'.'\<close> with \<open>ErrUnsupported\<close>, and leaves the
  engine as it was, whenever the display contains a \<open>'.'\<close>: the test reads the display
  before the display is reset for the second operand. So it also does right after an
  operator has been recorded on a display with a \<open>'.'\<close> (the operator is pending, the
  display still shows the first operand, the second operand is as unset as before).
\<close>

theorem ProcessOperand_second_dot_rejected:
  "CHR ''.'' \<in> set (Display c) \<Longrightarrow>
     ProcessOperand M (rune CHR ''.'') c = Return c (Some ErrUnsupported)
     \<and> (ContainsRune ''%/*-+'' op \<and> ProcessOperator M op c = Return c' None \<longrightarrow>
          Operator c' = Some op \<and> Operands1 c' = Operands1 c \<and> Display c' = Display c
          \<and> ProcessOperand M (rune CHR ''.'') c' = Return c' (Some ErrUnsupported))"
proof
  assume dot: "CHR ''.'' \<in> set (Display c)"
  then show first: "ProcessOperand M (rune CHR ''.'') c = Return c (Some ErrUnsupported)"
    by (simp add: ProcessOperand_def)
  show "ContainsRune ''%/*-+'' op \<and> ProcessOperator M op c = Return c' None \<longrightarrow>
          Operator c' = Some op \<and> Operands1 c' = Operands1 c \<and> Display c' = Display c
          \<and> ProcessOperand M (rune CHR ''.'') c' = Return c' (Some ErrUnsupported)"
  proof
    assume h: "ContainsRune ''%/*-+'' op \<and> ProcessOperator M op c = Return c' None"
    then have op: "op \<noteq> rune CHR ''C''" "op \<noteq> rune CHR ''T''" "op \<noteq> rune CHR ''=''"
      by (auto simp: ContainsRune_rune)
    with h obtain operand where
      c': "c' = c\<lparr> Operands0 := Some operand, Operator := Some op \<rparr>"
      by (auto simp: ProcessOperator_def split: if_splits option.splits)
    with dot show "Operator c' = Some op \<and> Operands1 c' = Operands1 c \<and> Display c' = Display c
          \<and> ProcessOperand M (rune CHR ''.'') c' = Return c' (Some ErrUnsupported)"
      by (simp add: ProcessOperand_def)
  qed
qed

theorem ProcessOperand_second_dot_rejected_witness:
  "presses gobig (keys ''1.5+'') NewCalculator =
     Return \<lparr>Display = ''1.5'',
             Operands0 = Some (mkFinite 64 False 13835058055282163712 (- 63)),
             Operands1 = None, Operator = Some (rune CHR ''+'')\<rparr> None
   \<and> ProcessOperand gobig (rune CHR ''.'')
       \<lparr>Display = ''1.5'',
        Operands0 = Some (mkFinite 64 False 13835058055282163712 (- 63)),
        Operands1 = None, Operator = Some (rune CHR ''+'')\<rparr> =
     Return \<lparr>Display = ''1.5'',
             Operands0 = Some (mkFinite 64 False 13835058055282163712 (- 63)),
             Operands1 = None, Operator = Some (rune CHR ''+'')\<rparr> (Some ErrUnsupported)"
proof -
  let ?c = "\<lparr>Display = ''1.5'',
             Operands0 = Some (mkFinite 64 False 13835058055282163712 (- 63)),
             Operands1 = None, Operator = Some (rune CHR ''+'')\<rparr>"
  have entered: "presses gobig (keys ''1.5+'') NewCalculator = Return ?c None"
    by code_simp
  have "CHR ''.'' \<in> set (Display ?c)"
    by simp
  from ProcessOperand_second_dot_rejected [OF this, of gobig]
  have "ProcessOperand gobig (rune CHR ''.'') ?c = Return ?c (Some ErrUnsupported)"
    by blast
  with entered show ?thesis by simp
qed

subsection \<open>The engine after an error\<close>

lemma ProcessOperand_error:
  "ProcessOperand M r c = Return c' (Some e) \<Longrightarrow> c' = c \<and> e = ErrUnsupported"
  by (auto simp: ProcessOperand_def Let_def split: if_splits)

lemma calculate_error:
  assumes "calculate M c = Return c' (Some e)"
  shows "(e = ErrUnsupported \<and> c' = c)
       \<or> (e = ErrDivisionByZero \<and> Operands1 c \<noteq> None
          \<and> (\<exists>b. Float_SetString M (newFloat M) (Display c) = Some b \<and> Float_Sign M b = 0
                   \<and> c' = c\<lparr> Operands1 := Some b \<rparr>))"
proof (cases "Operands1 c = None")
  case True
  with assms show ?thesis by (simp add: calculate_def)
next
  case set1: False
  show ?thesis
  proof (cases "Float_SetString M (newFloat M) (Display c)")
    case None
    with assms set1 show ?thesis by (simp add: calculate_def)
  next
    case (Some b)
    with assms set1 obtain op where op: "Operator c = Some op"
      and sw: "calculate_switch M op (Operands0 c) b = Some (Inl e)"
      and c': "c' = c\<lparr> Operands1 := Some b \<rparr>"
      by (auto simp: calculate_def Let_def split: option.splits sum.splits)
    from sw have "e = ErrDivisionByZero \<and> Float_Sign M b = 0"
      by (auto simp: calculate_switch_def Let_def split: if_splits option.splits)
    with Some set1 c' show ?thesis by simp
  qed
qed

lemma ProcessOperator_error:
  assumes "ProcessOperator M r c = Return c' (Some e)"
  shows "(e = ErrUnsupported \<and> c' = c)
       \<or> (r = rune CHR ''='' \<and> e = ErrDivisionByZero \<and> Operands1 c \<noteq> None
          \<and> (\<exists>b. Float_SetString M (newFloat M) (Display c) = Some b \<and> Float_Sign M b = 0
                   \<and> c' = c\<lparr> Operands1 := Some b \<rparr>))"
proof (cases "r = rune CHR ''=''")
  case True
  with assms have "calculate M c = Return c' (Some e)"
    by (simp add: ProcessOperator_def)
  from calculate_error [OF this] True show ?thesis by blast
next
  case False
  with assms show ?thesis
    by (auto simp: ProcessOperator_def split: if_splits option.splits)
qed

text \<open>
  Claim C2, as stated, fails: \<open>calculate\<close> stores the parsed display in
  \<open>Operands[1]\<close> before it tests the divisor. After the keys \<open>1 / 0\<close> the second
  operand is the placeholder \<open>new(big.Float)\<close>, of precision 0; the \<open>=\<close> that fails
  with \<open>ErrDivisionByZero\<close> leaves the parsed zero, of precision 64, in its place.
\<close>

theorem division_by_zero_overwrites_operand_counterexample:
  "presses gobig (keys ''1/0'') NewCalculator =
     Return \<lparr>Display = ''0'',
             Operands0 = Some (mkFinite 64 False 9223372036854775808 (- 63)),
             Operands1 = Some (mkZero 0 False), Operator = Some (rune CHR ''/'')\<rparr> None
   \<and> ProcessOperator gobig (rune CHR ''='')
       \<lparr>Display = ''0'',
        Operands0 = Some (mkFinite 64 False 9223372036854775808 (- 63)),
        Operands1 = Some (mkZero 0 False), Operator = Some (rune CHR ''/'')\<rparr> =
     Return \<lparr>Display = ''0'',
             Operands0 = Some (mkFinite 64 False 9223372036854775808 (- 63)),
             Operands1 = Some (mkZero 64 False), Operator = Some (rune CHR ''/'')\<rparr>
       (Some ErrDivisionByZero)
   \<and> mkZero 64 False \<noteq> mkZero 0 False"
proof (intro conjI)
  show "presses gobig (keys ''1/0'') NewCalculator =
     Return \<lparr>Display = ''0'',
             Operands0 = Some (mkFinite 64 False 9223372036854775808 (- 63)),
             Operands1 = Some (mkZero 0 False), Operator = Some (rune CHR ''/'')\<rparr> None"
    by code_simp
  show "ProcessOperator gobig (rune CHR ''='')
       \<lparr>Display = ''0'',
        Operands0 = Some (mkFinite 64 False 9223372036854775808 (- 63)),
        Operands1 = Some (mkZero 0 False), Operator = Some (rune CHR ''/'')\<rparr> =
     Return \<lparr>Display = ''0'',
             Operands0 = Some (mkFinite 64 False 9223372036854775808 (- 63)),
             Operands1 = Some (mkZero 64 False), Operator = Some (rune CHR ''/'')\<rparr>
       (Some ErrDivisionByZero)"
    by code_simp
  show "mkZero 64 False \<noteq> mkZero 0 False"
    by (simp add: mkZero_def)
qed

text \<open>
  Claim C2, amended. A call that returns an error leaves the display, the first operand
  and the operator as they were, and the second operand set or unset as it was.
  \<open>ProcessOperand\<close> only returns \<open>ErrUnsupported\<close>, and \<open>ErrUnsupported\<close> from
  either operation leaves the whole engine as it was. \<open>ErrDivisionByZero\<close> comes from
  \<open>=\<close> alone and leaves the engine as it was but for the second operand, which now
  holds the parsed display, a zero.
\<close>

theorem error_leaves_engine:
  "(ProcessOperand M r c = Return c' (Some e) \<longrightarrow> c' = c \<and> e = ErrUnsupported)
   \<and> (ProcessOperator M r c = Return c' (Some e) \<longrightarrow>
        Display c' = Display c \<and> Operands0 c' = Operands0 c \<and> Operator c' = Operator c
        \<and> (Operands1 c' = None \<longleftrightarrow> Operands1 c = None)
        \<and> (e = ErrUnsupported \<longrightarrow> c' = c)
        \<and> (e = ErrDivisionByZero \<longrightarrow>
             r = rune CHR ''='' \<and>
             (\<exists>b. Float_SetString M (newFloat M) (Display c) = Some b \<and> Float_Sign M b = 0
                  \<and> c' = c\<lparr> Operands1 := Some b \<rparr>)))"
proof (intro conjI impI)
  assume "ProcessOperand M r c = Return c' (Some e)"
  then show "c' = c" "e = ErrUnsupported"
    using ProcessOperand_error by blast+
next
  assume "ProcessOperator M r c = Return c' (Some e)"
  note cases = ProcessOperator_error [OF this]
  from cases show "Display c' = Display c" by auto
  from cases show "Operands0 c' = Operands0 c" by auto
  from cases show "Operator c' = Operator c" by auto
  from cases show "Operands1 c' = None \<longleftrightarrow> Operands1 c = None" by auto
  { assume "e = ErrUnsupported" with cases show "c' = c" by auto }
  { assume "e = ErrDivisionByZero"
    with cases show "r = rune CHR ''=''" by auto
    from \<open>e = ErrDivisionByZero\<close> cases
    show "\<exists>b. Float_SetString M (newFloat M) (Display c) = Some b \<and> Float_Sign M b = 0
                  \<and> c' = c\<lparr> Operands1 := Some b \<rparr>" by auto }
qed

theorem error_leaves_engine_witness:
  "ProcessOperator gobig (rune CHR ''='')
       \<lparr>Display = ''0'',
        Operands0 = Some (mkFinite 64 False 9223372036854775808 (- 63)),
        Operands1 = Some (mkZero 0 False), Operator = Some (rune CHR ''/'')\<rparr> =
     Return \<lparr>Display = ''0'',
             Operands0 = Some (mkFinite 64 False 9223372036854775808 (- 63)),
             Operands1 = Some (mkZero 64 False), Operator = Some (rune CHR ''/'')\<rparr>
       (Some ErrDivisionByZero)
   \<and> Float_SetString gobig (newFloat gobig) ''0'' = Some (mkZero 64 False)
   \<and> Float_Sign gobig (mkZero 64 False) = 0"
proof -
  let ?c = "\<lparr>Display = ''0'',
        Operands0 = Some (mkFinite 64 False 9223372036854775808 (- 63)),
        Operands1 = Some (mkZero 0 False), Operator = Some (rune CHR ''/'')\<rparr>"
  let ?c' = "\<lparr>Display = ''0'',
             Operands0 = Some (mkFinite 64 False 9223372036854775808 (- 63)),
             Operands1 = Some (mkZero 64 False), Operator = Some (rune CHR ''/'')\<rparr>"
  have failed: "ProcessOperator gobig (rune CHR ''='') ?c = Return ?c' (Some ErrDivisionByZero)"
    by code_simp
  with error_leaves_engine [of gobig "rune CHR ''=''" ?c ?c' ErrDivisionByZero]
  obtain b where b: "Float_SetString gobig (newFloat gobig) (Display ?c) = Some b"
      "Float_Sign gobig b = 0" "?c' = ?c\<lparr> Operands1 := Some b \<rparr>"
    by blast
  from b(3) have "b = mkZero 64 False"
    by simp
  with b(1,2) failed show ?thesis by simp
qed

subsection \<open>The display invariant\<close>

lemma display_ok_zero [simp]: "display_ok ''0''"
  by (simp add: display_ok_def HasPrefix_def)

lemma display_ok_append:
  assumes "display_ok d" and "r \<noteq> CHR ''-''" and "r = CHR ''.'' \<longrightarrow> CHR ''.'' \<notin> set d"
  shows "display_ok (d @ [r])"
proof -
  from assms(1) obtain x xs where d: "d = x # xs"
    by (cases d) (auto simp: display_ok_def)
  have count: "count_list (d @ [r]) CHR ''.'' \<le> 1"
  proof (cases "r = CHR ''.''")
    case True
    with assms(3) have "count_list d CHR ''.'' = 0" by simp
    with True show ?thesis by simp
  next
    case False
    with assms(1) show ?thesis by (simp add: display_ok_def)
  qed
  from assms(1,2) d have "\<not> HasPrefix (d @ [r]) ''--''"
    by (cases xs) (auto simp: display_ok_def HasPrefix_def)
  with count d show ?thesis
    by (simp add: display_ok_def)
qed

lemma display_ok_single: "r \<noteq> CHR ''-'' \<Longrightarrow> display_ok [r]"
  by (simp add: display_ok_def HasPrefix_def)

lemma display_ok_toggle:
  assumes "display_ok d"
  shows "display_ok (if HasPrefix d ''-'' then drop 1 d else ''-'' @ d)"
proof (cases "HasPrefix d ''-''")
  case True
  then obtain xs where d: "d = CHR ''-'' # xs"
    by (cases d) (auto simp: HasPrefix_def)
  with assms obtain y ys where xs: "xs = y # ys" and y: "y \<noteq> CHR ''-''"
    by (cases xs) (auto simp: display_ok_def HasPrefix_def)
  from assms d have "count_list xs CHR ''.'' \<le> 1"
    by (simp add: display_ok_def)
  with xs y have "display_ok xs"
    by (cases ys) (auto simp: display_ok_def HasPrefix_def)
  with True d show ?thesis
    by simp
next
  case False
  with assms show ?thesis
    by (cases d) (auto simp: display_ok_def HasPrefix_def)
qed

lemma ProcessOperand_display_ok:
  assumes ok: "display_ok (Display c)" and step: "ProcessOperand M r c = Return c' e"
  shows "display_ok (Display c')"
proof (cases e)
  case (Some err)
  with step have "c' = c" using ProcessOperand_error by blast
  with ok show ?thesis by simp
next
  case None
  define A where "A \<longleftrightarrow> (rune CHR ''0'' \<le> r \<and> r \<le> rune CHR ''9'')
        \<or> r = rune CHR ''.'' \<and> \<not> ContainsRune (Display c) (rune CHR ''.'')"
  define c1 where "c1 = (if Display c \<in> set [''NaN'', ''Inf'', ''+Inf'', ''-Inf''] then reset c else c)"
  define c2 where "c2 = (if Operator c1 \<noteq> None \<and> Operands1 c1 = None
                  then c1\<lparr> Display := ''0'', Operands1 := Some (newFloat M) \<rparr> else c1)"
  define c3 where "c3 = (if Display c2 = ''0'' \<and> r \<noteq> rune CHR ''.''
                  then c2\<lparr> Display := string_of_rune r \<rparr>
                  else c2\<lparr> Display := Display c2 @ string_of_rune r \<rparr>)"
  have unfold: "ProcessOperand M r c = (if \<not> A then Return c (Some ErrUnsupported) else Return c3 None)"
    by (simp only: ProcessOperand_def Let_def A_def c1_def c2_def c3_def)
  with step None have A and "c' = c3"
    by (simp_all split: if_splits)
  from \<open>A\<close> have accepted:
    "(rune CHR ''0'' \<le> r \<and> r \<le> rune CHR ''9'') \<or> r = rune CHR ''.'' \<and> CHR ''.'' \<notin> set (Display c)"
    by (simp add: A_def)
  from \<open>c' = c3\<close> have c': "Display c' = (if Display c2 = ''0'' \<and> r \<noteq> rune CHR ''.''
                           then string_of_rune r else Display c2 @ string_of_rune r)"
    by (simp add: c3_def)
  have d2: "Display c2 = Display c \<or> Display c2 = ''0''"
    by (auto simp: c1_def c2_def reset_def)
  then have ok2: "display_ok (Display c2)"
    using ok by auto
  from accepted have byte: "0 \<le> r \<and> r < 128"
    by (auto simp: rune_def)
  have not_minus: "char_of r \<noteq> CHR ''-''"
  proof
    assume "char_of r = CHR ''-''"
    then have "of_char (char_of r :: char) = (of_char CHR ''-'' :: int)" by simp
    with byte have "r = 45" by (simp add: of_char_of)
    with accepted show False by (simp add: rune_def)
  qed
  have dot: "char_of r = CHR ''.'' \<longrightarrow> CHR ''.'' \<notin> set (Display c2)"
  proof
    assume "char_of r = CHR ''.''"
    then have "of_char (char_of r :: char) = (of_char CHR ''.'' :: int)" by simp
    with byte have "r = 46" by (simp add: of_char_of)
    with accepted have "CHR ''.'' \<notin> set (Display c)" by (simp add: rune_def)
    with d2 show "CHR ''.'' \<notin> set (Display c2)" by auto
  qed
  show ?thesis
  proof (cases "Display c2 = ''0'' \<and> r \<noteq> rune CHR ''.''")
    case True
    with c' not_minus show ?thesis
      by (simp add: string_of_rune_def display_ok_single)
  next
    case False
    with c' have "Display c' = Display c2 @ [char_of r]"
      by (simp add: string_of_rune_def)
    with display_ok_append [OF ok2 not_minus dot] show ?thesis by simp
  qed
qed

lemma ProcessOperator_display_ok:
  assumes wf: "Text_wf M" and ok: "display_ok (Display c)"
    and step: "ProcessOperator M r c = Return c' e"
  shows "display_ok (Display c')"
proof (cases e)
  case (Some err)
  from ProcessOperator_error [OF step [unfolded Some]] have "Display c' = Display c"
    by auto
  with ok show ?thesis by simp
next
  case None
  show ?thesis
  proof (cases "r = rune CHR ''=''")
    case True
    with step None have "calculate M c = Return c' None"
      by (simp add: ProcessOperator_def)
    then obtain x where "Display c' = TrimSuffix (Float_Text M x) ''.0''"
      by (auto simp: calculate_def Let_def reset_def split: if_splits option.splits sum.splits)
    with wf show ?thesis by (simp add: Text_wf_def)
  next
    case False
    with step None have
      "Display c' = ''0'' \<or> Display c' = Display c
       \<or> Display c' = (if HasPrefix (Display c) ''-'' then drop 1 (Display c) else ''-'' @ Display c)"
      by (auto simp: ProcessOperator_def split: if_splits option.splits)
    with ok display_ok_toggle [OF ok] show ?thesis by auto
  qed
qed

lemma reachable_display_ok:
  assumes wf: "Text_wf M"
  shows "reachable M c \<Longrightarrow> display_ok (Display c)"
proof (induction rule: reachable.induct)
  case reachable_New
  show ?case by (simp add: NewCalculator_def)
next
  case (reachable_Operand c r c' e)
  then show ?case using ProcessOperand_display_ok by blast
next
  case (reachable_Operator c r c' e)
  then show ?case using ProcessOperator_display_ok [OF wf] by blast
qed

text \<open>
  Claim C7. With a library that prints well-formed texts (\<open>Text_wf\<close>, which the model
  of \<open>math/big\<close> satisfies), every engine reachable from \<open>NewCalculator\<close> by calls of
  \<open>ProcessOperand\<close> and \<open>ProcessOperator\<close> has a display that is not empty and holds
  at most one \<open>'.'\<close>, and so has the engine left by any further call.
\<close>

theorem display_never_empty_one_separator:
  assumes "Text_wf M" and "reachable M c"
  shows "Display c \<noteq> [] \<and> count_list (Display c) CHR ''.'' \<le> 1
       \<and> (\<forall>r c' e. ProcessOperand M r c = Return c' e \<or> ProcessOperator M r c = Return c' e \<longrightarrow>
             Display c' \<noteq> [] \<and> count_list (Display c') CHR ''.'' \<le> 1)"
proof -
  have ok: "Display c \<noteq> [] \<and> count_list (Display c) CHR ''.'' \<le> 1" if "reachable M c" for c
    using reachable_display_ok [OF assms(1) that] by (simp add: display_ok_def)
  have "reachable M c'" if "ProcessOperand M r c = Return c' e \<or> ProcessOperator M r c = Return c' e"
    for r c' e
    using that assms(2) reachable_Operand reachable_Operator by blast
  with ok assms(2) show ?thesis by blast
qed

subsection \<open>The model of \<open>math/big\<close> prints well-formed texts\<close>

lemma digit_chars: "\<forall>k\<in>set [0, 1, 2, 3, 4, 5, 6, 7, 8, 9 :: nat]. is_digit (char_of (48 + k))"
  by code_simp

lemma is_digit_digit_char: "is_digit (digit_char d)"
proof -
  have enum: "[0..<10] = [0, 1, 2, 3, 4, 5, 6, 7, 8, 9 :: nat]"
    by code_simp
  have "d mod 10 \<in> set [0..<10]"
    by simp
  then have "d mod 10 \<in> set [0, 1, 2, 3, 4, 5, 6, 7, 8, 9 :: nat]"
    by (simp only: enum)
  with digit_chars show ?thesis
    unfolding digit_char_def by blast
qed

lemma is_digit_plain: "is_digit c \<Longrightarrow> c \<noteq> CHR ''.'' \<and> c \<noteq> CHR ''-''"
  by (auto simp: is_digit_def)

lemma fmtF_shape:
  obtains ip fp where "fmtF p d = ip @ fp" and "ip \<noteq> []" and "\<forall>c\<in>set ip. is_digit c"
    and "fp = [] \<or> (\<exists>ds. fp = CHR ''.'' # ds \<and> (\<forall>c\<in>set ds. is_digit c))"
proof -
  define ip where "ip = (if dexp d > 0
      then (let m = min (length (dmant d)) (nat (dexp d))
            in map digit_char (take m (dmant d)) @ replicate (nat (dexp d) - m) CHR ''0'')
      else ''0'')"
  define fp where "fp = (if p > 0 then CHR ''.'' # map (\<lambda>i. digit_char (decimal_at d (dexp d + int i))) [0..<p] else [])"
  have zero: "is_digit CHR ''0''" by (simp add: is_digit_def)
  have "fmtF p d = ip @ fp"
    by (simp only: fmtF_def ip_def fp_def)
  moreover have "ip \<noteq> []"
    by (auto simp: ip_def Let_def min_def)
  moreover have "\<forall>c\<in>set ip. is_digit c"
    using zero by (auto simp: ip_def Let_def is_digit_digit_char)
  moreover have "fp = [] \<or> (\<exists>ds. fp = CHR ''.'' # ds \<and> (\<forall>c\<in>set ds. is_digit c))"
    by (auto simp: fp_def is_digit_digit_char)
  ultimately show thesis by (rule that)
qed

lemma HasSuffix_dot_zero:
  assumes "HasSuffix t ''.0''"
  shows "2 \<le> length t \<and> t ! (length t - 2) = CHR ''.''"
proof -
  have two: "length ''.0'' = 2" by simp
  from assms have len: "2 \<le> length t" and suffix: "drop (length t - 2) t = ''.0''"
    unfolding HasSuffix_def two by blast+
  from len have "length t - 2 < length t" by simp
  then have "t ! (length t - 2) = hd (drop (length t - 2) t)"
    by (rule hd_drop_conv_nth [symmetric])
  with suffix len show ?thesis by simp
qed

lemma count_dot_take_frac:
  assumes "fp = [] \<or> (\<exists>ds. fp = CHR ''.'' # ds \<and> (\<forall>c\<in>set ds. is_digit c))"
  shows "count_list (take k fp) CHR ''.'' \<le> 1"
proof -
  have none: "count_list xs CHR ''.'' = 0" if "\<forall>c\<in>set xs. is_digit c" for xs
    using that is_digit_plain by (induction xs) auto
  from assms show ?thesis
  proof
    assume "fp = []" then show ?thesis by simp
  next
    assume "\<exists>ds. fp = CHR ''.'' # ds \<and> (\<forall>c\<in>set ds. is_digit c)"
    then obtain ds where fp: "fp = CHR ''.'' # ds" and ds: "\<forall>c\<in>set ds. is_digit c" by blast
    show ?thesis
    proof (cases k)
      case 0 then show ?thesis by simp
    next
      case (Suc j)
      have "\<forall>c\<in>set (take j ds). is_digit c"
        using ds by (meson in_set_takeD)
      from none [OF this] fp Suc show ?thesis by simp
    qed
  qed
qed

lemma shape_take_display_ok:
  assumes sg: "sg = [] \<or> sg = ''-''" and ip: "ip \<noteq> []" "\<forall>c\<in>set ip. is_digit c"
    and fp: "fp = [] \<or> (\<exists>ds. fp = CHR ''.'' # ds \<and> (\<forall>c\<in>set ds. is_digit c))"
    and n: "length (sg @ ip) \<le> n"
  shows "display_ok (take n (sg @ ip @ fp))"
proof -
  obtain x xs where ipc: "ip = x # xs" using ip(1) by (cases ip) auto
  with ip(2) have x: "x \<noteq> CHR ''.''" "x \<noteq> CHR ''-''" using is_digit_plain by auto
  have none: "count_list ip CHR ''.'' = 0"
    using ip(2) is_digit_plain by (induction ip) auto
  define fp' where "fp' = take (n - length (sg @ ip)) fp"
  have take: "take n (sg @ ip @ fp) = sg @ ip @ fp'"
    using n by (simp add: fp'_def)
  have "count_list fp' CHR ''.'' \<le> 1"
    unfolding fp'_def by (rule count_dot_take_frac [OF fp])
  with none sg have count: "count_list (sg @ ip @ fp') CHR ''.'' \<le> 1"
    by auto
  from sg ipc x have "sg @ ip @ fp' \<noteq> []" "sg @ ip @ fp' \<noteq> ''-''"
    "\<not> HasPrefix (sg @ ip @ fp') ''--''"
    by (auto simp: HasPrefix_def)
  with count take show ?thesis
    by (simp add: display_ok_def)
qed

lemma shape_display_ok:
  assumes sg: "sg = [] \<or> sg = ''-''" and ip: "ip \<noteq> []" "\<forall>c\<in>set ip. is_digit c"
    and fp: "fp = [] \<or> (\<exists>ds. fp = CHR ''.'' # ds \<and> (\<forall>c\<in>set ds. is_digit c))"
  shows "display_ok (TrimSuffix (sg @ ip @ fp) ''.0'')"
proof (cases "HasSuffix (sg @ ip @ fp) ''.0''")
  case False
  then have "TrimSuffix (sg @ ip @ fp) ''.0'' = take (length (sg @ ip @ fp)) (sg @ ip @ fp)"
    by (simp add: TrimSuffix_def)
  moreover have "display_ok (take (length (sg @ ip @ fp)) (sg @ ip @ fp))"
    by (rule shape_take_display_ok [OF sg ip fp]) simp
  ultimately show ?thesis by simp
next
  case True
  let ?t = "sg @ ip @ fp"
  let ?k = "length ?t - 2"
  from HasSuffix_dot_zero [OF True] have len: "2 \<le> length ?t" and dot: "?t ! ?k = CHR ''.''"
    by blast+
  from len have k: "?k < length ?t" by simp
  have "length (sg @ ip) \<le> ?k"
  proof (rule ccontr)
    assume "\<not> length (sg @ ip) \<le> ?k"
    then have short: "?k < length (sg @ ip)" by simp
    then have "?t ! ?k = (sg @ ip) ! ?k"
      by (metis append.assoc nth_append)
    with short have "?t ! ?k \<in> set (sg @ ip)"
      by (metis nth_mem)
    with dot have "CHR ''.'' \<in> set sg \<or> CHR ''.'' \<in> set ip"
      by simp
    then show False
    proof
      assume "CHR ''.'' \<in> set sg"
      with sg show False by auto
    next
      assume "CHR ''.'' \<in> set ip"
      with ip(2) have "is_digit CHR ''.''" by blast
      then show False by (simp add: is_digit_def)
    qed
  qed
  then have "display_ok (take ?k ?t)"
    by (rule shape_take_display_ok [OF sg ip fp])
  moreover have "TrimSuffix t ''.0'' = take (length t - 2) t" if "HasSuffix t ''.0''" for t
    using that by (simp add: TrimSuffix_def numeral_2_eq_2)
  from this [OF True] have "TrimSuffix ?t ''.0'' = take ?k ?t" .
  ultimately show ?thesis by (simp only:)
qed

lemma Text_wf_gobig: "Text_wf gobig"
proof -
  have "display_ok (TrimSuffix (Text x) ''.0'')" for x
  proof (cases "form x = inf_form")
    case True
    then show ?thesis
      by (cases "neg x") (simp_all add: Text_def TrimSuffix_def HasSuffix_def display_ok_def HasPrefix_def)
  next
    case False
    define d where "d = roundShortest (if form x = finite_form then decimal_init (mant x) (exp x)
                    else \<lparr> dmant = [], dexp = 0 \<rparr>) x"
    define p where "p = nat (max (int (length (dmant d)) - dexp d) 0)"
    define sg where "sg = (if neg x then ''-'' else [])"
    from False have printed: "Text x = sg @ fmtF p d"
      by (simp add: Text_def Let_def d_def p_def sg_def)
    obtain ip fp where shape: "fmtF p d = ip @ fp" "ip \<noteq> []" "\<forall>c\<in>set ip. is_digit c"
      "fp = [] \<or> (\<exists>ds. fp = CHR ''.'' # ds \<and> (\<forall>c\<in>set ds. is_digit c))"
      by (rule fmtF_shape)
    have "sg = [] \<or> sg = ''-''" by (simp add: sg_def)
    from shape_display_ok [OF this shape(2,3,4)] printed shape(1) show ?thesis by simp
  qed
  then show ?thesis
    by (simp add: Text_wf_def gobig_def)
qed

subsection \<open>Evaluating the decimal conversion\<close>

text \<open>
  \<open>utoa\<close> divides by 10 once per digit. To evaluate it on a number of some sixty
  digits, the digits are given and checked by multiplication: \<open>utoa\<close> returns the
  digits \<open>ds\<close> of \<open>horner ds\<close> when \<open>ds\<close> has no leading zero.
\<close>

lemma horner_snoc: "horner (ds @ [d]) = 10 * horner ds + int d"
  by (simp add: horner_def)

lemma horner_pos: "ds \<noteq> [] \<Longrightarrow> hd ds \<noteq> 0 \<Longrightarrow> 0 < horner ds"
proof (induction ds rule: rev_induct)
  case Nil
  then show ?case by simp
next
  case (snoc d ds)
  show ?case
  proof (cases "ds = []")
    case True
    with snoc.prems show ?thesis by (simp add: horner_def)
  next
    case False
    with snoc have "0 < horner ds" by simp
    then show ?thesis by (simp add: horner_snoc)
  qed
qed

lemma utoa_acc_horner:
  "ds \<noteq> [] \<Longrightarrow> hd ds \<noteq> 0 \<Longrightarrow> \<forall>d\<in>set ds. d < 10 \<Longrightarrow> utoa_acc (horner ds) acc = ds @ acc"
proof (induction ds arbitrary: acc rule: rev_induct)
  case Nil
  then show ?case by simp
next
  case (snoc d ds)
  from snoc.prems have d: "d < 10" by simp
  show ?case
  proof (cases "ds = []")
    case True
    with d show ?thesis
      by (subst utoa_acc.simps) (simp add: horner_def)
  next
    case False
    with snoc.prems have hd: "hd ds \<noteq> 0" and small: "\<forall>d\<in>set ds. d < 10" by simp_all
    from horner_pos [OF False hd] have h: "0 < horner ds" .
    let ?n = "10 * horner ds + int d"
    from h d have big: "\<not> ?n < 10" by simp
    from d have "?n div 10 = horner ds" "nat (?n mod 10) = d" by simp_all
    with big have "utoa_acc ?n acc = utoa_acc (horner ds) (d # acc)"
      by (subst utoa_acc.simps) simp
    also have "\<dots> = ds @ d # acc"
      by (rule snoc.IH [OF False hd small])
    finally show ?thesis by (simp add: horner_snoc)
  qed
qed

lemma trim_zeros: "ds \<noteq> [] \<Longrightarrow> last ds \<noteq> 0 \<Longrightarrow> trim (ds @ replicate z 0) = ds"
proof -
  assume ds: "ds \<noteq> []" "last ds \<noteq> 0"
  have "dropWhile (\<lambda>d. d = 0) (replicate z (0::nat) @ rev ds) = dropWhile (\<lambda>d. d = 0) (rev ds)"
    by (induction z) simp_all
  also from ds have "\<dots> = rev ds"
    by (cases "rev ds") (auto simp: last_rev [symmetric] simp del: last_rev)
  finally show ?thesis by (simp add: trim_def)
qed

lemma decimal_init_digits:
  assumes m: "0 < N"
    and N: "N = horner (ds @ replicate z 0)"
    and ds: "ds \<noteq> []" "hd ds \<noteq> 0" "last ds \<noteq> 0" "\<forall>d\<in>set ds. d < 10"
  shows "utoa N = ds @ replicate z 0" and "trim (utoa N) = ds"
proof -
  from ds have "ds @ replicate z 0 \<noteq> []" "hd (ds @ replicate z 0) \<noteq> 0"
    "\<forall>d\<in>set (ds @ replicate z 0). d < 10"
    by auto
  from utoa_acc_horner [OF this, of "[]"] N show u: "utoa N = ds @ replicate z 0"
    by (simp add: utoa_def)
  from ds show "trim (utoa N) = ds"
    unfolding u by (simp add: trim_zeros)
qed

lemma decimal_init_frac:
  assumes "0 < m" and "shift < 0"
    and "m * 5 ^ nat (- shift) = horner (ds @ replicate z 0)"
    and "ds \<noteq> []" "hd ds \<noteq> 0" "last ds \<noteq> 0" "\<forall>d\<in>set ds. d < 10"
    and "e = int (length ds + z) + shift"
  shows "decimal_init m shift = \<lparr>dmant = ds, dexp = e\<rparr>"
proof -
  let ?N = "m * 5 ^ nat (- shift)"
  from assms(1) have "0 < ?N" by simp
  from decimal_init_digits [OF this assms(3-7)] assms(1,2,8) show ?thesis
    by (simp add: decimal_init_def Let_def)
qed

lemma decimal_init_whole:
  assumes "0 < m" and "0 \<le> shift"
    and "m * 2 ^ nat shift = horner (ds @ replicate z 0)"
    and "ds \<noteq> []" "hd ds \<noteq> 0" "last ds \<noteq> 0" "\<forall>d\<in>set ds. d < 10"
    and "e = int (length ds + z)"
  shows "decimal_init m shift = \<lparr>dmant = ds, dexp = e\<rparr>"
proof -
  let ?N = "m * 2 ^ nat shift"
  from assms(1) have "0 < ?N" by simp
  from decimal_init_digits [OF this assms(3-7)] assms(1,2,8) show ?thesis
    by (simp add: decimal_init_def Let_def)
qed

lemma Text_finite:
  assumes "form x = finite_form"
    and "decimal_init (mant x) (exp x) = digits"
    and "decimal_init (2 * mant x - 1) (exp x - 1) = lower"
    and "decimal_init (2 * mant x + 1) (exp x - 1) = upper"
    and "shortest_walk digits lower upper (even (mant x)) 0 (dmant digits) = shortest"
    and "fmtF (nat (max (int (length (dmant shortest)) - dexp shortest) 0)) shortest = s"
  shows "Text x = (if neg x then ''-'' else []) @ s"
proof -
  have "roundShortest digits x = shortest"
  proof (cases "dmant digits = []")
    case True
    with assms(5) show ?thesis by (simp add: roundShortest_def)
  next
    case False
    with assms(3,4,5) show ?thesis by (simp add: roundShortest_def Let_def)
  qed
  with assms(1,2,6) show ?thesis
    by (simp add: Text_def Let_def)
qed

lemma Text_minus_one:
  "Text \<lparr>prec = 64, neg = True, form = finite_form, mant = 9223372036854775808,
       exp = - 63\<rparr>
     = ''-1''"
proof -
  let ?x = "\<lparr>prec = 64, neg = True, form = finite_form, mant =
            9223372036854775808, exp = - 63\<rparr>"
  let ?digits = "\<lparr>dmant = [1], dexp = 1\<rparr>"
  let ?lower = "\<lparr>dmant = [9, 9, 9, 9, 9, 9, 9, 9, 9, 9, 9, 9, 9, 9, 9, 9, 9, 9,
                9, 4, 5, 7, 8, 9, 8, 9, 1, 3, 7, 5, 7, 2, 4, 7, 7, 8, 2, 9, 9, 6, 2, 7,
                3, 5, 9, 9, 5, 6, 5, 0, 2, 9, 1, 4, 4, 2, 8, 7, 1, 0, 9, 3, 7, 5], dexp
                = 0\<rparr>"
  let ?upper = "\<lparr>dmant = [1, 0, 0, 0, 0, 0, 0, 0, 0, 0, 0, 0, 0, 0, 0, 0, 0, 0,
                0, 0, 5, 4, 2, 1, 0, 1, 0, 8, 6, 2, 4, 2, 7, 5, 2, 2, 1, 7, 0, 0, 3, 7,
                2, 6, 4, 0, 0, 4, 3, 4, 9, 7, 0, 8, 5, 5, 7, 1, 2, 8, 9, 0, 6, 2, 5],
                dexp = 1\<rparr>"
  let ?shortest = "\<lparr>dmant = [1], dexp = 1\<rparr>"
  have digits: "decimal_init 9223372036854775808 (- 63) = ?digits"
    by (rule decimal_init_frac [where z = 63]; code_simp)
  have lower: "decimal_init 18446744073709551615 (- 64) = ?lower"
    by (rule decimal_init_frac [where z = 0]; code_simp)
  have upper: "decimal_init 18446744073709551617 (- 64) = ?upper"
    by (rule decimal_init_frac [where z = 0]; code_simp)
  have "Text ?x = (if neg ?x then ''-'' else []) @ ''1''"
  proof (rule Text_finite [where digits = ?digits and lower = ?lower and upper = ?upper
        and shortest = ?shortest])
    show "form ?x = finite_form" by simp
    show "decimal_init (mant ?x) (exp ?x) = ?digits" using digits by simp
    show "decimal_init (2 * mant ?x - 1) (exp ?x - 1) = ?lower" using lower by simp
    show "decimal_init (2 * mant ?x + 1) (exp ?x - 1) = ?upper" using upper by simp
    show "shortest_walk ?digits ?lower ?upper (even (mant ?x)) 0 (dmant ?digits) = ?shortest"
      by code_simp
    show "fmtF (nat (max (int (length (dmant ?shortest)) - dexp ?shortest) 0)) ?shortest
            = ''1''"
      by code_simp
  qed
  then show ?thesis by simp
qed

lemma Text_two_pow_64:
  "Text \<lparr>prec = 64, neg = False, form = finite_form, mant = 9223372036854775808,
       exp = 1\<rparr>
     = ''18446744073709551616''"
proof -
  let ?x = "\<lparr>prec = 64, neg = False, form = finite_form, mant =
            9223372036854775808, exp = 1\<rparr>"
  let ?digits = "\<lparr>dmant = [1, 8, 4, 4, 6, 7, 4, 4, 0, 7, 3, 7, 0, 9, 5, 5, 1, 6,
                 1, 6], dexp = 20\<rparr>"
  let ?lower = "\<lparr>dmant = [1, 8, 4, 4, 6, 7, 4, 4, 0, 7, 3, 7, 0, 9, 5, 5, 1, 6,
                1, 5], dexp = 20\<rparr>"
  let ?upper = "\<lparr>dmant = [1, 8, 4, 4, 6, 7, 4, 4, 0, 7, 3, 7, 0, 9, 5, 5, 1, 6,
                1, 7], dexp = 20\<rparr>"
  let ?shortest = "\<lparr>dmant = [1, 8, 4, 4, 6, 7, 4, 4, 0, 7, 3, 7, 0, 9, 5, 5, 1,
                   6, 1, 6], dexp = 20\<rparr>"
  have digits: "decimal_init 9223372036854775808 1 = ?digits"
    by (rule decimal_init_whole [where z = 0]; code_simp)
  have lower: "decimal_init 18446744073709551615 0 = ?lower"
    by (rule decimal_init_whole [where z = 0]; code_simp)
  have upper: "decimal_init 18446744073709551617 0 = ?upper"
    by (rule decimal_init_whole [where z = 0]; code_simp)
  have "Text ?x = (if neg ?x then ''-'' else []) @ ''18446744073709551616''"
  proof (rule Text_finite [where digits = ?digits and lower = ?lower and upper = ?upper
        and shortest = ?shortest])
    show "form ?x = finite_form" by simp
    show "decimal_init (mant ?x) (exp ?x) = ?digits" using digits by simp
    show "decimal_init (2 * mant ?x - 1) (exp ?x - 1) = ?lower" using lower by simp
    show "decimal_init (2 * mant ?x + 1) (exp ?x - 1) = ?upper" using upper by simp
    show "shortest_walk ?digits ?lower ?upper (even (mant ?x)) 0 (dmant ?digits) = ?shortest"
      by code_simp
    show "fmtF (nat (max (int (length (dmant ?shortest)) - dexp ?shortest) 0)) ?shortest
            = ''18446744073709551616''"
      by code_simp
  qed
  then show ?thesis by simp
qed


subsection \<open>Evaluation\<close>

lemma calculate_result:
  assumes "Operands1 c \<noteq> None"
    and "Float_SetString M (newFloat M) (Display c) = Some b"
    and "Operator c = Some op"
    and "calculate_switch M op (Operands0 c) b = Some (Inr r)"
  shows "calculate M c = Return (shown M r) None"
  using assms by (simp add: calculate_def shown_def reset_def Let_def)


lemma press_equals_calculate: "press M (rune CHR ''='') c = calculate M c"
  by (simp add: press_def ProcessOperator_def ContainsRune_rune)

lemma presses_snoc:
  "presses M rs c = Return c' e \<Longrightarrow> rs \<noteq> [] \<Longrightarrow> presses M (rs @ [r]) c = press M r c'"
proof (induction rs arbitrary: c)
  case Nil
  then show ?case by simp
next
  case (Cons x xs)
  show ?case
  proof (cases "xs = []")
    case True
    with Cons.prems show ?thesis
      by (cases "press M x c"; cases "press M r c'") simp_all
  next
    case False
    with Cons.prems obtain c1 e1 where step: "press M x c = Return c1 e1"
      and rest: "presses M xs c1 = Return c' e"
      by (cases "press M x c") simp_all
    from Cons.IH [OF rest False] step False show ?thesis by simp
  qed
qed

lemma press_reachable: "reachable M c \<Longrightarrow> press M r c = Return c' e \<Longrightarrow> reachable M c'"
  by (auto simp: press_def intro: reachable_Operand reachable_Operator split: if_splits)

lemma presses_reachable:
  "reachable M c \<Longrightarrow> presses M rs c = Return c' e \<Longrightarrow> reachable M c'"
proof (induction rs arbitrary: c)
  case Nil
  then show ?case by simp
next
  case (Cons r rs)
  from Cons.prems(2) obtain c1 e1 where step: "press M r c = Return c1 e1"
    by (cases "press M r c") simp_all
  from press_reachable [OF Cons.prems(1) step] have r1: "reachable M c1" .
  show ?case
  proof (cases "rs = []")
    case True
    with Cons.prems(2) step r1 show ?thesis by simp
  next
    case False
    with Cons.prems(2) step have "presses M rs c1 = Return c' e" by simp
    from Cons.IH [OF r1 this] show ?thesis .
  qed
qed

lemma press_equals:
  assumes "presses M rs NewCalculator = Return c e0" and "rs \<noteq> []"
    and "Operands1 c \<noteq> None"
    and "Float_SetString M (newFloat M) (Display c) = Some b"
    and "Operator c = Some op"
    and "calculate_switch M op (Operands0 c) b = Some (Inr r)"
  shows "presses M (rs @ keys ''='') NewCalculator = Return (shown M r) None"
  using calculate_result [OF assms(3-6)] presses_snoc [OF assms(1,2), of "rune CHR ''=''"]
  by (simp add: keys_def press_equals_calculate)

lemma TrimSuffix_examples:
  "TrimSuffix ''-1'' ''.0'' = ''-1''"
  "TrimSuffix ''0.3'' ''.0'' = ''0.3''"
  "TrimSuffix ''18446744073709551616'' ''.0'' = ''18446744073709551616''"
  by code_simp+

lemma two_pow_64_plus_one:
  "presses gobig (keys ''18446744073709551616+1='') NewCalculator
     = Return \<lparr>Display = ''18446744073709551616'', Operands0 = None, Operands1 = None,
               Operator = None\<rparr> None"
proof -
  let ?a = "\<lparr>prec = 64, neg = False, form = finite_form, mant = 9223372036854775808,
            exp = 1\<rparr>"
  let ?b = "\<lparr>prec = 64, neg = False, form = finite_form, mant = 9223372036854775808,
            exp = - 63\<rparr>"
  let ?c = "\<lparr>Display = ''1'', Operands0 = Some ?a, Operands1 = Some (mkZero 0 False),
            Operator = Some (rune CHR ''+'')\<rparr>"
  have before: "presses gobig (keys ''18446744073709551616+1'') NewCalculator = Return ?c None"
    by code_simp
  have parse: "Float_SetString gobig (newFloat gobig) (Display ?c) = Some ?b"
    by code_simp
  have switch: "calculate_switch gobig (rune CHR ''+'') (Operands0 ?c) ?b = Some (Inr ?a)"
    by code_simp
  have "presses gobig (keys ''18446744073709551616+1'' @ keys ''='') NewCalculator
          = Return (shown gobig ?a) None"
    by (rule press_equals [OF before _ _ parse _ switch]) (simp_all add: keys_def)
  moreover have "Float_Sign gobig ?a \<noteq> 0"
    by code_simp
  ultimately show ?thesis
    by (simp add: shown_def keys_def gobig_def Text_two_pow_64 TrimSuffix_examples)
qed

subsection \<open>The four operations\<close>




subsection \<open>The remainder\<close>

text \<open>
  Claim C1 says that \<open>%\<close> displays the floored remainder \<open>a - b * floor (a / b)\<close>. The
  code names its quotient \<open>floor\<close> but takes it with \<open>Float.Int\<close>, which truncates
  towards zero. For the keys \<open>7 T % 2 =\<close>, that is \<open>-7 % 2\<close>, the quotient \<open>-3.5\<close>
  becomes \<open>-3\<close> and the display \<open>-1\<close>, where the floored remainder is
  \<open>-7 - 2 * (-4) = 1\<close> (the \<open>div\<close> of HOL is the floored quotient).
\<close>

theorem modulo_truncates_quotient:
  "presses gobig (keys ''7T%2='') NewCalculator
     = Return \<lparr>Display = ''-1'', Operands0 = None, Operands1 = None, Operator = None\<rparr> None
   \<and> Int_of (mkFinite 64 True 16140901064495857664 (- 62)) = Some (- 3)
   \<and> (- 7 :: int) - 2 * (- 7 div 2) = 1"
proof (intro conjI)
  let ?minus_seven = "\<lparr>prec = 64, neg = True, form = finite_form, mant = 16140901064495857664,
                      exp = - 61\<rparr>"
  let ?two = "\<lparr>prec = 64, neg = False, form = finite_form, mant = 9223372036854775808,
              exp = - 62\<rparr>"
  let ?minus_one = "\<lparr>prec = 64, neg = True, form = finite_form, mant = 9223372036854775808,
                    exp = - 63\<rparr>"
  let ?c = "\<lparr>Display = ''2'', Operands0 = Some ?minus_seven, Operands1 = Some (mkZero 0 False),
            Operator = Some (rune CHR ''%'')\<rparr>"
  have before: "presses gobig (keys ''7T%2'') NewCalculator = Return ?c None"
    by code_simp
  have parse: "Float_SetString gobig (newFloat gobig) (Display ?c) = Some ?two"
    by code_simp
  have switch: "calculate_switch gobig (rune CHR ''%'') (Operands0 ?c) ?two = Some (Inr ?minus_one)"
    by code_simp
  have "presses gobig (keys ''7T%2'' @ keys ''='') NewCalculator
          = Return (shown gobig ?minus_one) None"
    by (rule press_equals [OF before _ _ parse _ switch]) (simp_all add: keys_def)
  moreover have "Float_Sign gobig ?minus_one \<noteq> 0"
    by code_simp
  ultimately show "presses gobig (keys ''7T%2='') NewCalculator
     = Return \<lparr>Display = ''-1'', Operands0 = None, Operands1 = None, Operator = None\<rparr> None"
    by (simp add: shown_def keys_def gobig_def Text_minus_one TrimSuffix_examples)
  show "Int_of (mkFinite 64 True 16140901064495857664 (- 62)) = Some (- 3)"
    by code_simp
  show "(- 7 :: int) - 2 * (- 7 div 2) = 1"
    by simp
qed

subsection \<open>A reachable engine\<close>

theorem display_never_empty_one_separator_witness:
  "Text_wf gobig
   \<and> reachable gobig \<lparr>Display = ''18446744073709551616'', Operands0 = None, Operands1 = None,
                       Operator = None\<rparr>
   \<and> ''18446744073709551616'' \<noteq> []
   \<and> count_list ''18446744073709551616'' CHR ''.'' \<le> 1"
proof -
  let ?c = "\<lparr>Display = ''18446744073709551616'', Operands0 = None, Operands1 = None,
            Operator = None\<rparr> :: Float Calculator"
  have reach: "reachable gobig ?c"
    by (rule presses_reachable [OF reachable_New two_pow_64_plus_one])
  from display_never_empty_one_separator [OF Text_wf_gobig reach]
  have "Display ?c \<noteq> [] \<and> count_list (Display ?c) CHR ''.'' \<le> 1"
    by blast
  with Text_wf_gobig reach show ?thesis by simp
qed

end
